theory Spec2Isabelle
  imports Main "HOL-Library.Signed_Division"
begin

section \<open>Strings\<close>

text \<open>
  A Go string is a sequence of bytes; it is modelled as \<open>string\<close> (a list of 8-bit
  characters). The functions of this section are the ones of packages \<open>strings\<close> and
  \<open>fmt\<close> that \<open>main.go\<close> calls, at the arguments it calls them with.
\<close>

definition isASCII :: "char \<Rightarrow> bool" where
  "isASCII c = ((of_char c :: nat) < 128)"

definition lowerASCII :: "char \<Rightarrow> char" where
  "lowerASCII c =
     (let n = (of_char c :: nat) in if 65 \<le> n \<and> n \<le> 90 then char_of (n + 32) else c)"

text \<open>
  \<open>strings.ToLower\<close>: a string of ASCII bytes has its letters \<open>A..Z\<close> mapped to
  \<open>a..z\<close>; any other string is mapped rune by rune with the Unicode tables of the
  standard library, which are the parameter \<open>uni\<close>.
\<close>

definition ToLower :: "(string \<Rightarrow> string) \<Rightarrow> string \<Rightarrow> string" where
  "ToLower uni s = (if list_all isASCII s then map lowerASCII s else uni s)"

text \<open>
  The conversion \<open>string(b)\<close> of a byte: the UTF-8 encoding of the code point \<open>b\<close>,
  one byte below 128 and two bytes from 128 on.
\<close>

definition string_of_byte :: "char \<Rightarrow> string" where
  "string_of_byte b =
     (let n = (of_char b :: nat)
      in if n < 128 then [b] else [char_of (192 + n div 64), char_of (128 + n mod 64)])"

fun HasPrefix :: "string \<Rightarrow> string \<Rightarrow> bool" where
  "HasPrefix s [] = True"
| "HasPrefix [] (p # ps) = False"
| "HasPrefix (c # cs) (p # ps) = (c = p \<and> HasPrefix cs ps)"

fun Contains :: "string \<Rightarrow> string \<Rightarrow> bool" where
  "Contains [] substr = HasPrefix [] substr"
| "Contains (c # cs) substr = (HasPrefix (c # cs) substr \<or> Contains cs substr)"

definition HasSuffix :: "string \<Rightarrow> string \<Rightarrow> bool" where
  "HasSuffix s suffix = HasPrefix (rev s) (rev suffix)"

definition TrimSuffix :: "string \<Rightarrow> string \<Rightarrow> string" where
  "TrimSuffix s suffix =
     (if HasSuffix s suffix then take (length s - length suffix) s else s)"

text \<open>\<open>strings.Trim\<close> with a cutset of one character.\<close>

definition Trim :: "string \<Rightarrow> char \<Rightarrow> string" where
  "Trim s c = rev (dropWhile (\<lambda>x. x = c) (rev (dropWhile (\<lambda>x. x = c) s)))"

text \<open>
  \<open>strings.Split\<close> with a separator of one character; \<open>acc\<close> holds the current
  part, reversed. The result is never empty.
\<close>

fun Split_from :: "char \<Rightarrow> string \<Rightarrow> string \<Rightarrow> string list" where
  "Split_from sep acc [] = [rev acc]"
| "Split_from sep acc (c # cs) =
     (if c = sep then rev acc # Split_from sep [] cs else Split_from sep (c # acc) cs)"

definition Split :: "string \<Rightarrow> char \<Rightarrow> string list" where
  "Split s sep = Split_from sep [] s"

text \<open>The verb \<open>%d\<close> of \<open>fmt.Sprintf\<close>: an integer in decimal.\<close>

definition digit :: "nat \<Rightarrow> char" where
  "digit d = char_of (48 + d)"

fun digits :: "nat \<Rightarrow> string" where
  "digits n = (if n < 10 then [digit n] else digits (n div 10) @ [digit (n mod 10)])"

definition itoa :: "int \<Rightarrow> string" where
  "itoa i = (if i < 0 then CHR ''-'' # digits (nat (- i)) else digits (nat i))"

text \<open>\<open>fmt.Sprintf("%s_%s.go", baseFileName, suffix)\<close>.\<close>

definition fileName :: "string \<Rightarrow> string \<Rightarrow> string" where
  "fileName baseFileName suffix = baseFileName @ ''_'' @ suffix @ ''.go''"

text \<open>\<open>fmt.Sprintf("%s%d", baseSuffix, i)\<close>.\<close>

definition numbered :: "string \<Rightarrow> int \<Rightarrow> string" where
  "numbered baseSuffix i = baseSuffix @ itoa i"

section \<open>Syntax trees\<close>

text \<open>
  The declarations of package \<open>go/ast\<close> that the program reads. A tree is seen as
  \<open>ast.Inspect\<close> walks it: an identifier, a selector expression \<open>X.Sel\<close>, or any other
  node with its children in order.
\<close>

datatype node =
    Ident string
  | SelectorExpr node string
  | Node "node list"

text \<open>
  An import specification: the alias (\<open>imp.Name\<close>, possibly \<open>nil\<close>) and the text of
  the path literal (\<open>imp.Path.Value\<close>), delimiters included.
\<close>

record ImportSpec =
  imp_Name :: "string option"
  imp_Path_Value :: string

text \<open>
  A function declaration: its name (\<open>fn.Name\<close>, which the program tests against
  \<open>nil\<close>) and its nodes (receiver, name, signature and body) as \<open>ast.Inspect\<close> meets
  them.
\<close>

record FuncDecl =
  fn_Name :: "string option"
  fn_nodes :: "node list"

datatype token = T_IMPORT | T_TYPE | T_CONST | T_VAR

datatype spec =
    ImportSpecS ImportSpec
  | TypeSpecS node
  | ValueSpecS node

record GenDecl =
  Tok :: token
  Specs :: "spec list"

datatype decl =
    GenDeclD GenDecl
  | FuncDeclD FuncDecl
  | BadDeclD

record File =
  file_Name :: string
  file_Decls :: "decl list"

section \<open>Extracting the declarations\<close>

fun importSpecs :: "spec list \<Rightarrow> ImportSpec list" where
  "importSpecs [] = []"
| "importSpecs (ImportSpecS importSpec # specs) = importSpec # importSpecs specs"
| "importSpecs (s # specs) = importSpecs specs"

fun extractImports_decls :: "decl list \<Rightarrow> ImportSpec list" where
  "extractImports_decls [] = []"
| "extractImports_decls (GenDeclD genDecl # decls) =
     (if Tok genDecl = T_IMPORT then importSpecs (Specs genDecl) @ extractImports_decls decls
      else extractImports_decls decls)"
| "extractImports_decls (d # decls) = extractImports_decls decls"

definition extractImports :: "File \<Rightarrow> ImportSpec list" where
  "extractImports node = extractImports_decls (file_Decls node)"

fun extractTypeDecls_decls :: "decl list \<Rightarrow> GenDecl list" where
  "extractTypeDecls_decls [] = []"
| "extractTypeDecls_decls (GenDeclD genDecl # decls) =
     (if Tok genDecl = T_TYPE then genDecl # extractTypeDecls_decls decls
      else extractTypeDecls_decls decls)"
| "extractTypeDecls_decls (d # decls) = extractTypeDecls_decls decls"

definition extractTypeDecls :: "File \<Rightarrow> GenDecl list" where
  "extractTypeDecls node = extractTypeDecls_decls (file_Decls node)"

fun extractFunctions_decls :: "decl list \<Rightarrow> FuncDecl list" where
  "extractFunctions_decls [] = []"
| "extractFunctions_decls (FuncDeclD funcDecl # decls) = funcDecl # extractFunctions_decls decls"
| "extractFunctions_decls (d # decls) = extractFunctions_decls decls"

definition extractFunctions :: "File \<Rightarrow> FuncDecl list" where
  "extractFunctions node = extractFunctions_decls (file_Decls node)"

section \<open>The suffix of a file name\<close>

definition keywordTable :: "string list" where
  "keywordTable = [
    ''parse'', ''generate'', ''create'', ''process'', ''handle'', ''convert'', ''build'',
    ''render'', ''execute'', ''validate'', ''format'', ''transform'', ''encode'', ''decode'',
    ''load'', ''save'', ''write'', ''read'', ''get'', ''set'', ''add'', ''remove'', ''update'',
    ''delete'', ''find'', ''search'', ''filter'', ''sort'', ''merge'', ''split'', ''join'',
    ''copy'', ''move'', ''clean'', ''init'', ''start'', ''stop'', ''run'', ''exec'', ''call'',
    ''invoke'', ''apply'', ''map'', ''reduce'', ''collect'', ''stream'', ''buffer'', ''cache'',
    ''store'', ''fetch'', ''send'', ''receive'', ''upload'', ''download'', ''compress'',
    ''extract'', ''zip'', ''unzip'', ''backup'', ''restore'', ''sync'', ''async'', ''wait'',
    ''notify'', ''signal'', ''lock'', ''unlock'', ''open'', ''close'', ''connect'',
    ''disconnect'', ''bind'', ''unbind'', ''listen'', ''serve'', ''request'', ''response'',
    ''query'', ''insert'', ''select'', ''count'', ''sum'', ''max'', ''min'', ''avg'',
    ''group'', ''order'', ''limit'', ''offset'', ''page'', ''chunk'', ''batch'', ''parallel'',
    ''serial'', ''concurrent'', ''thread'', ''worker'', ''job'', ''task'', ''queue'',
    ''stack'', ''list'', ''array'', ''map'', ''set'', ''tree'', ''graph'', ''node'', ''edge'',
    ''path'', ''route'', ''url'', ''uri'', ''link'', ''ref'', ''ptr'', ''addr'', ''size'',
    ''len'', ''cap'', ''empty'', ''full'', ''contains'', ''exists'', ''valid'', ''invalid'',
    ''ok'', ''error'', ''warn'', ''info'', ''debug'', ''trace'', ''log'', ''print'', ''show'',
    ''display'', ''render'', ''draw'', ''paint'', ''color'', ''style'', ''theme'', ''skin'',
    ''layout'', ''align'', ''position'', ''size'', ''resize'', ''scale'', ''zoom'', ''pan'',
    ''scroll'', ''drag'', ''drop'', ''click'', ''hover'', ''focus'', ''blur'', ''select'',
    ''deselect'', ''toggle'', ''switch'', ''enable'', ''disable'', ''show'', ''hide'',
    ''visible'', ''invisible'', ''active'', ''inactive'', ''on'', ''off'', ''true'', ''false'',
    ''yes'', ''no'', ''ok'', ''cancel'', ''submit'', ''reset'', ''clear'', ''clean'',
    ''flush'', ''purge'', ''refresh'', ''reload'', ''restart'', ''resume'', ''pause'',
    ''play'', ''record'', ''replay'', ''undo'', ''redo'', ''cut'', ''copy'', ''paste'',
    ''clone'', ''duplicate'', ''mirror'', ''reflect'', ''invert'', ''reverse'', ''flip'',
    ''rotate'', ''shift'', ''move'', ''slide'', ''fade'', ''animate'', ''transition'',
    ''effect'', ''filter'', ''mask'', ''overlay'', ''background'', ''foreground'', ''layer'',
    ''depth'', ''level'', ''priority'', ''weight'', ''rank'', ''score'', ''rate'', ''ratio'',
    ''percent'', ''fraction'', ''decimal'', ''integer'', ''float'', ''double'', ''string'',
    ''char'', ''byte'', ''bit'', ''word'', ''line'', ''paragraph'', ''section'', ''chapter'',
    ''page'', ''document'', ''file'', ''folder'', ''directory'', ''path'', ''name'', ''title'',
    ''label'', ''tag'', ''attr'', ''prop'', ''field'', ''column'', ''row'', ''cell'',
    ''table'', ''grid'', ''matrix'', ''vector'', ''point'', ''coord'', ''pos'', ''loc'',
    ''place'', ''spot'', ''area'', ''region'', ''zone'', ''space'', ''room'', ''box'',
    ''container'', ''wrapper'', ''holder'', ''frame'', ''border'', ''edge'', ''corner'',
    ''side'', ''top'', ''bottom'', ''left'', ''right'', ''center'', ''middle'', ''inner'',
    ''outer'', ''inside'', ''outside'', ''before'', ''after'', ''first'', ''last'', ''next'',
    ''prev'', ''current'', ''new'', ''old'', ''temp'', ''tmp'', ''backup'', ''orig'', ''copy'',
    ''clone'', ''draft'', ''final'', ''test'', ''demo'', ''sample'', ''example'', ''template'',
    ''pattern'', ''model'', ''schema'', ''struct'', ''class'', ''type'', ''kind'', ''sort'',
    ''category'', ''group'', ''team'', ''user'', ''admin'', ''guest'', ''public'', ''private'',
    ''secure'', ''safe'', ''unsafe'', ''danger'', ''risk'', ''warn'', ''alert'', ''notice'',
    ''message'', ''text'', ''content'', ''data'', ''info'', ''meta'', ''config'', ''setting'',
    ''option'', ''param'', ''arg'', ''value'', ''result'', ''output'', ''input'', ''source'',
    ''target'', ''dest'', ''from'', ''to'', ''via'', ''through'', ''by'', ''with'',
    ''without'', ''using'', ''based'', ''upon'', ''over'', ''under'', ''above'', ''below'',
    ''between'', ''among'', ''within'', ''outside'', ''beyond'', ''across'', ''along'',
    ''around'', ''through'', ''during'', ''while'', ''until'', ''since'', ''before'',
    ''after'', ''when'', ''where'', ''what'', ''who'', ''why'', ''how'', ''which'', ''whose'',
    ''whom'', ''that'', ''this'', ''these'', ''those'', ''such'', ''same'', ''other'',
    ''another'', ''each'', ''every'', ''all'', ''any'', ''some'', ''none'', ''nothing'',
    ''something'', ''anything'', ''everything'', ''somewhere'', ''anywhere'', ''everywhere'',
    ''nowhere'', ''someone'', ''anyone'', ''everyone'', ''no one'']"

definition alternatives :: "string list" where
  "alternatives = [
    ''core'', ''main'', ''base'', ''util'', ''helper'', ''common'', ''shared'', ''extra'',
    ''misc'', ''other'', ''new'', ''alt'', ''impl'', ''logic'', ''work'', ''task'', ''ops'',
    ''flow'', ''step'', ''part'', ''unit'', ''chunk'', ''block'', ''piece'', ''item'',
    ''elem'', ''node'', ''link'', ''path'', ''route'', ''view'', ''ctrl'', ''model'', ''data'',
    ''info'', ''meta'', ''config'', ''setup'', ''init'', ''boot'', ''start'', ''launch'',
    ''run'', ''exec'', ''proc'', ''action'', ''event'', ''state'', ''change'', ''update'',
    ''modify'', ''edit'', ''fix'', ''patch'', ''clean'', ''clear'', ''reset'', ''fresh'',
    ''quick'', ''fast'', ''slow'', ''temp'', ''local'', ''remote'', ''public'', ''private'',
    ''secure'', ''safe'', ''simple'', ''basic'', ''advanced'', ''custom'', ''special'',
    ''unique'', ''single'', ''multi'', ''batch'', ''group'', ''list'', ''set'', ''map'',
    ''tree'', ''graph'', ''queue'', ''stack'', ''buffer'', ''cache'', ''store'', ''load'',
    ''save'', ''fetch'', ''send'', ''recv'', ''sync'', ''async'', ''wait'', ''done'',
    ''ready'', ''active'', ''idle'', ''busy'', ''free'', ''open'', ''close'', ''lock'',
    ''unlock'', ''check'', ''test'', ''verify'', ''valid'', ''error'', ''warn'', ''debug'',
    ''trace'', ''log'', ''print'', ''show'', ''hide'', ''render'', ''draw'', ''build'',
    ''make'', ''craft'', ''forge'', ''shape'', ''form'', ''mold'', ''cast'', ''press'',
    ''push'', ''pull'', ''move'', ''shift'', ''slide'', ''jump'', ''skip'', ''next'', ''prev'',
    ''first'', ''last'', ''top'', ''bottom'', ''left'', ''right'', ''center'', ''middle'',
    ''inner'', ''outer'', ''upper'', ''lower'', ''high'', ''low'', ''big'', ''small'',
    ''large'', ''tiny'', ''huge'', ''mini'', ''full'', ''empty'', ''blank'', ''void'',
    ''null'', ''zero'', ''one'', ''two'', ''three'', ''many'', ''few'', ''some'', ''all'',
    ''none'', ''auto'', ''manual'', ''smart'', ''dumb'', ''cool'', ''warm'', ''hot'', ''cold'',
    ''wet'', ''dry'', ''soft'', ''hard'', ''light'', ''dark'', ''bright'', ''dim'', ''loud'',
    ''quiet'', ''fast'', ''slow'', ''old'', ''young'', ''rich'', ''poor'', ''true'', ''false'',
    ''good'', ''bad'', ''nice'', ''ugly'', ''clean'', ''dirty'', ''pure'', ''mixed'',
    ''solid'', ''liquid'', ''gas'', ''fire'', ''water'', ''earth'', ''air'', ''wood'',
    ''metal'', ''stone'', ''glass'', ''paper'', ''cloth'', ''rope'', ''wire'', ''pipe'',
    ''tube'', ''box'', ''bag'', ''cup'', ''bowl'', ''plate'', ''knife'', ''fork'', ''spoon'',
    ''tool'', ''gear'', ''part'', ''chip'', ''disk'', ''tape'', ''card'', ''key'', ''lock'',
    ''door'', ''window'', ''wall'', ''floor'', ''roof'', ''room'', ''house'', ''city'',
    ''town'', ''road'', ''street'', ''bridge'', ''river'', ''lake'', ''sea'', ''ocean'',
    ''mountain'', ''hill'', ''tree'', ''flower'', ''grass'', ''leaf'', ''seed'', ''fruit'',
    ''root'', ''branch'', ''trunk'', ''bark'', ''wood'', ''forest'', ''field'', ''farm'',
    ''garden'', ''park'', ''zoo'', ''museum'', ''school'', ''library'', ''store'', ''shop'',
    ''market'', ''bank'', ''office'', ''factory'', ''lab'', ''studio'', ''theater'',
    ''cinema'', ''restaurant'', ''cafe'', ''hotel'', ''hospital'', ''church'', ''temple'',
    ''castle'', ''tower'', ''bridge'', ''tunnel'', ''cave'', ''valley'', ''desert'',
    ''island'', ''beach'', ''shore'', ''coast'', ''port'', ''harbor'', ''dock'', ''ship'',
    ''boat'', ''plane'', ''train'', ''car'', ''bike'', ''truck'', ''bus'', ''taxi'',
    ''rocket'', ''satellite'', ''star'', ''moon'', ''sun'', ''planet'', ''comet'', ''meteor'',
    ''galaxy'', ''universe'', ''space'', ''time'', ''year'', ''month'', ''week'', ''day'',
    ''hour'', ''minute'', ''second'', ''moment'', ''instant'', ''flash'', ''spark'', ''flame'',
    ''smoke'', ''cloud'', ''rain'', ''snow'', ''ice'', ''frost'', ''dew'', ''mist'', ''fog'',
    ''wind'', ''storm'', ''thunder'', ''lightning'', ''rainbow'', ''shadow'', ''light'',
    ''beam'', ''ray'', ''wave'', ''sound'', ''music'', ''song'', ''voice'', ''word'',
    ''letter'', ''number'', ''symbol'', ''sign'', ''mark'', ''dot'', ''line'', ''curve'',
    ''circle'', ''square'', ''triangle'', ''diamond'', ''heart'', ''star'', ''cross'',
    ''arrow'', ''spiral'', ''wave'', ''grid'', ''mesh'', ''net'', ''web'', ''thread'',
    ''string'', ''rope'', ''chain'', ''link'', ''bond'', ''tie'', ''knot'', ''loop'', ''ring'',
    ''band'', ''strip'', ''belt'', ''strap'', ''handle'', ''grip'', ''hold'', ''grasp'',
    ''touch'', ''feel'', ''sense'', ''see'', ''look'', ''watch'', ''view'', ''scan'',
    ''search'', ''find'', ''seek'', ''hunt'', ''track'', ''follow'', ''lead'', ''guide'',
    ''direct'', ''point'', ''aim'', ''target'', ''goal'', ''end'', ''finish'', ''complete'',
    ''done'', ''over'', ''final'', ''last'', ''stop'', ''halt'', ''pause'', ''break'',
    ''rest'', ''sleep'', ''wake'', ''rise'', ''fall'', ''drop'', ''lift'', ''raise'',
    ''lower'', ''turn'', ''spin'', ''rotate'', ''twist'', ''bend'', ''fold'', ''open'',
    ''close'', ''shut'', ''seal'', ''break'', ''crack'', ''split'', ''join'', ''merge'',
    ''unite'', ''divide'', ''separate'', ''cut'', ''slice'', ''chop'', ''tear'', ''rip'',
    ''grab'', ''catch'', ''throw'', ''toss'', ''cast'', ''shoot'', ''fire'', ''blast'',
    ''explode'', ''crash'', ''smash'', ''hit'', ''strike'', ''punch'', ''kick'', ''stomp'',
    ''step'', ''walk'', ''run'', ''jog'', ''sprint'', ''rush'', ''hurry'', ''slow'', ''crawl'',
    ''climb'', ''jump'', ''leap'', ''hop'', ''skip'', ''dance'', ''swim'', ''dive'', ''float'',
    ''fly'', ''soar'', ''glide'', ''drift'', ''flow'', ''stream'', ''rush'', ''pour'',
    ''drip'', ''leak'', ''spill'', ''splash'', ''spray'', ''mist'', ''dust'', ''powder'',
    ''grain'', ''sand'', ''dirt'', ''mud'', ''clay'', ''rock'', ''stone'', ''pebble'',
    ''boulder'', ''crystal'', ''gem'', ''gold'', ''silver'', ''copper'', ''iron'', ''steel'',
    ''brass'', ''bronze'', ''tin'', ''lead'', ''zinc'', ''chrome'', ''nickel'', ''cobalt'',
    ''carbon'', ''silicon'', ''oxygen'', ''hydrogen'', ''nitrogen'', ''helium'', ''neon'',
    ''argon'', ''mercury'', ''venus'', ''mars'', ''jupiter'', ''saturn'', ''uranus'',
    ''neptune'', ''pluto'']"

text \<open>
  \<open>generateFilenameSuffix\<close>. The two nested loops return the first keyword, in the
  order of the table, that occurs in some name.
\<close>

definition generateFilenameSuffix :: "(string \<Rightarrow> string) \<Rightarrow> FuncDecl list \<Rightarrow> bool \<Rightarrow> string" where
  "generateFilenameSuffix uni functions hasTypes =
     (if hasTypes then ''types''
      else if length functions = 0 then ''empty''
      else
        let funcNames = List.map_filter (\<lambda>fn. map_option (ToLower uni) (fn_Name fn)) functions
        in if length funcNames = 0 then ''funcs''
           else
             (case find (\<lambda>keyword. list_ex (\<lambda>name. Contains name keyword) funcNames) keywordTable of
                Some keyword \<Rightarrow> keyword
              | None \<Rightarrow>
                  if length (hd funcNames) > 0
                  then ToLower uni (string_of_byte (hd (hd funcNames)))
                  else ''funcs''))"

text \<open>
  A candidate suffix is free when its file name is not in the snapshot of the directory
  and it is not among the names used so far: the test
  \<open>!existingFiles[filename] && !usedNames[suffix]\<close>. The two Go maps hold only the value
  \<open>true\<close>, so each is the set of its keys.
\<close>

definition isFree :: "string \<Rightarrow> string set \<Rightarrow> string set \<Rightarrow> string \<Rightarrow> bool" where
  "isFree baseFileName existingFiles usedNames suffix =
     (fileName baseFileName suffix \<notin> existingFiles \<and> suffix \<notin> usedNames)"

definition generateUniqueFilenameSuffix ::
  "(string \<Rightarrow> string) \<Rightarrow> FuncDecl list \<Rightarrow> bool \<Rightarrow> string \<Rightarrow> string set \<Rightarrow> string set \<Rightarrow> string" where
  "generateUniqueFilenameSuffix uni functions hasTypes baseFileName existingFiles usedNames =
     (let baseSuffix = generateFilenameSuffix uni functions hasTypes
      in if isFree baseFileName existingFiles usedNames baseSuffix then baseSuffix
         else
           (case find (isFree baseFileName existingFiles usedNames) alternatives of
              Some testSuffix \<Rightarrow> testSuffix
            | None \<Rightarrow>
                (case find (\<lambda>i. isFree baseFileName existingFiles usedNames (numbered baseSuffix i))
                        [1..999] of
                   Some i \<Rightarrow> numbered baseSuffix i
                 | None \<Rightarrow> numbered baseSuffix 999)))"

section \<open>The imports of a group\<close>

text \<open>
  The function literal that \<open>analyzeRequiredImports\<close> hands to \<open>ast.Inspect\<close> always
  returns \<open>true\<close>, so every node of the tree is visited. At a selector expression it
  records the name of \<open>X\<close> when \<open>X\<close> is an identifier; the walk then goes on into
  \<open>X\<close> and \<open>Sel\<close>, which are visited as identifiers of their own. The Go map
  \<open>usedIdentifiers\<close> is the set of its keys.
\<close>

fun collect :: "node \<Rightarrow> string set" where
  "collect (Ident name) = {name}"
| "collect (SelectorExpr x sel) =
     (case x of Ident name \<Rightarrow> {name} | _ \<Rightarrow> {}) \<union> collect x \<union> collect (Ident sel)"
| "collect (Node children) = (\<Union>c \<in> set children. collect c)"

text \<open>
  The walk of a specification: an import specification has its alias and its path literal
  as children, the others the tree of their own.
\<close>

fun collect_spec :: "spec \<Rightarrow> string set" where
  "collect_spec (ImportSpecS imp) = (case imp_Name imp of Some name \<Rightarrow> {name} | None \<Rightarrow> {})"
| "collect_spec (TypeSpecS n) = collect n"
| "collect_spec (ValueSpecS n) = collect n"

definition usedIdentifiers :: "FuncDecl list \<Rightarrow> GenDecl list \<Rightarrow> string set" where
  "usedIdentifiers functions typeDecls =
     (\<Union>fn \<in> set functions. \<Union>n \<in> set (fn_nodes fn). collect n) \<union>
     (\<Union>typeDecl \<in> set typeDecls. \<Union>s \<in> set (Specs typeDecl). collect_spec s)"

definition importName :: "ImportSpec \<Rightarrow> string" where
  "importName imp =
     (case imp_Name imp of
        Some name \<Rightarrow> name
      | None \<Rightarrow>
          let importPath = Trim (imp_Path_Value imp) (CHR 0x22);
              parts = Split importPath (CHR ''/'')
          in parts ! (length parts - 1))"

definition analyzeRequiredImports ::
  "FuncDecl list \<Rightarrow> GenDecl list \<Rightarrow> ImportSpec list \<Rightarrow> ImportSpec list" where
  "analyzeRequiredImports functions typeDecls allImports =
     filter (\<lambda>imp. importName imp \<in> usedIdentifiers functions typeDecls) allImports"

section \<open>The environment\<close>

text \<open>
  What the program asks of the standard library and of the file system is a parameter of
  the model: the Unicode tables of \<open>strings.ToLower\<close>, \<open>parser.ParseFile\<close>,
  \<open>filepath.Base\<close>, \<open>filepath.Dir\<close>, \<open>filepath.Join\<close>, \<open>os.ReadDir\<close>,
  \<open>os.Create\<close> and \<open>format.Node\<close>. A call that can fail returns the text of its
  error. The answers of the environment do not change during a run: the program reads
  the directory once, and whether a file can be created and printed depends on its name
  and its contents.
\<close>

record DirEntry =
  entry_Name :: string
  entry_IsDir :: bool

record env =
  unicodeLower :: "string \<Rightarrow> string"
  parseFile :: "string \<Rightarrow> string + File"
  pathBase :: "string \<Rightarrow> string"
  pathDir :: "string \<Rightarrow> string"
  pathJoin :: "string \<Rightarrow> string \<Rightarrow> string"
  readDir :: "string \<Rightarrow> string + DirEntry list"
  osCreate :: "string \<Rightarrow> string option"
  formatNode :: "string \<Rightarrow> File \<Rightarrow> string option"

definition getExistingFiles :: "env \<Rightarrow> string \<Rightarrow> string + string set" where
  "getExistingFiles e dir =
     (case readDir e dir of
        Inl err \<Rightarrow> Inl err
      | Inr entries \<Rightarrow>
          Inr (set (map entry_Name
                 (filter (\<lambda>entry. \<not> entry_IsDir entry \<and> HasSuffix (entry_Name entry) ''.go'')
                    entries))))"

text \<open>
  \<open>writeGoFile\<close> builds the file (the import declaration only when there are imports,
  then the type declarations, then the functions), creates it and prints into it. Its
  result is the error, if any. When the printing fails the file has been created all the
  same; the log of \<open>splitGoFile\<close> below holds the files written without error.
\<close>

definition assemble ::
  "string \<Rightarrow> ImportSpec list \<Rightarrow> GenDecl list \<Rightarrow> FuncDecl list \<Rightarrow> File" where
  "assemble packageName importList typeDecls functions =
     \<lparr>file_Name = packageName,
      file_Decls =
        (if length importList > 0
         then [GenDeclD \<lparr>Tok = T_IMPORT, Specs = map ImportSpecS importList\<rparr>]
         else [])
        @ map GenDeclD typeDecls @ map FuncDeclD functions\<rparr>"

definition writeGoFile ::
  "env \<Rightarrow> string \<Rightarrow> string \<Rightarrow> ImportSpec list \<Rightarrow> GenDecl list \<Rightarrow> FuncDecl list
   \<Rightarrow> string option" where
  "writeGoFile e filename packageName importList typeDecls functions =
     (case osCreate e filename of
        Some err \<Rightarrow> Some err
      | None \<Rightarrow> formatNode e filename (assemble packageName importList typeDecls functions))"

section \<open>Splitting a file\<close>

datatype error =
    ParseError string
  | NoFunctions
  | ReadDirError string
  | WriteError string string
  | DivideByZero
  | SliceBounds

text \<open>
  One record of the log for each file written: the index of the group, its suffix, the
  path of the file and the imports, type declarations and functions handed to
  \<open>writeGoFile\<close>.
\<close>

record written =
  w_index :: int
  w_suffix :: string
  w_outputFile :: string
  w_imports :: "ImportSpec list"
  w_types :: "GenDecl list"
  w_functions :: "FuncDecl list"

text \<open>The variables of \<open>splitGoFile\<close> that its loop reads.\<close>

record locals =
  packageName :: string
  imps :: "ImportSpec list"
  typeDecls :: "GenDecl list"
  funcs :: "FuncDecl list"
  baseFileName :: string
  outputDir :: string
  existingFiles :: "string set"
  funcsPerFile :: int
  numFiles :: int

text \<open>
  The slice expression \<open>functions[start:end]\<close>, which panics when its bounds are out
  of range. The loop takes it with \<open>start\<close> below the length and \<open>end\<close> at most
  the length, so the range is checked against the length of the list.
\<close>

definition slice :: "'a list \<Rightarrow> int \<Rightarrow> int \<Rightarrow> 'a list option" where
  "slice xs start endIdx =
     (if 0 \<le> start \<and> start \<le> endIdx \<and> endIdx \<le> int (length xs)
      then Some (take (nat (endIdx - start)) (drop (nat start) xs))
      else None)"

text \<open>
  The loop of \<open>splitGoFile\<close> from iteration \<open>i\<close> on. The state is the set
  \<open>usedNames\<close> and the log of the files written so far; the result is the error
  returned, if any, and the log. Go integers are taken unbounded: the products and sums
  of the loop stay below three times the number of functions.
\<close>

function splitLoop ::
  "env \<Rightarrow> locals \<Rightarrow> int \<Rightarrow> string set \<Rightarrow> written list \<Rightarrow> error option \<times> written list" where
  "splitLoop e L i usedNames out =
     (if i < numFiles L then
        let start = i * funcsPerFile L;
            end0 = start + funcsPerFile L;
            endIdx = (if end0 > int (length (funcs L)) then int (length (funcs L)) else end0)
        in if start \<ge> int (length (funcs L)) then (None, out)
           else
             (case slice (funcs L) start endIdx of
                None \<Rightarrow> (Some SliceBounds, out)
              | Some grp \<Rightarrow>
                  let typesForFile = (if i = 0 then typeDecls L else []);
                      suffix = generateUniqueFilenameSuffix (unicodeLower e) grp (i = 0)
                                 (baseFileName L) (existingFiles L) usedNames;
                      usedNames' = insert suffix usedNames;
                      outputFile = pathJoin e (outputDir L) (fileName (baseFileName L) suffix);
                      requiredImports = analyzeRequiredImports grp typesForFile (imps L)
                  in (case writeGoFile e outputFile (packageName L) requiredImports typesForFile grp of
                        Some err \<Rightarrow> (Some (WriteError outputFile err), out)
                      | None \<Rightarrow>
                          splitLoop e L (i + 1) usedNames'
                            (out @ [\<lparr>w_index = i, w_suffix = suffix, w_outputFile = outputFile,
                                     w_imports = requiredImports, w_types = typesForFile,
                                     w_functions = grp\<rparr>])))
      else (None, out))"
  by pat_completeness auto
termination
  by (relation "measure (\<lambda>(e, L, i, usedNames, out). nat (numFiles L - i))") auto

declare splitLoop.simps [simp del]

text \<open>
  \<open>splitGoFile\<close>. The quotient and the remainder of Go truncate towards zero, and a
  division by zero panics.
\<close>

definition splitGoFile :: "env \<Rightarrow> string \<Rightarrow> int \<Rightarrow> error option \<times> written list" where
  "splitGoFile e inputFile n =
     (case parseFile e inputFile of
        Inl err \<Rightarrow> (Some (ParseError err), [])
      | Inr node \<Rightarrow>
          if length (extractFunctions node) = 0 then (Some NoFunctions, [])
          else
            (case getExistingFiles e (pathDir e inputFile) of
               Inl err \<Rightarrow> (Some (ReadDirError err), [])
             | Inr existing \<Rightarrow>
                 if n = 0 then (Some DivideByZero, [])
                 else
                   let len = int (length (extractFunctions node));
                       perFile = (if len smod n \<noteq> 0 then len sdiv n + 1 else len sdiv n)
                   in splitLoop e
                        \<lparr>packageName = file_Name node,
                         imps = extractImports node,
                         typeDecls = extractTypeDecls node,
                         funcs = extractFunctions node,
                         baseFileName = TrimSuffix (pathBase e inputFile) ''.go'',
                         outputDir = pathDir e inputFile,
                         existingFiles = existing,
                         funcsPerFile = perFile,
                         numFiles = n\<rparr>
                        0 {} []))"

section \<open>The earlier copy of the program\<close>

text \<open>
  The second source file of the repository is an earlier copy of \<open>main.go\<close>. Its
  functions \<open>extractImports\<close>, \<open>extractTypeDecls\<close>, \<open>extractFunctions\<close>,
  \<open>writeGoFile\<close> and \<open>generateFilenameSuffix\<close> are the ones above, with the same
  table of keywords. Its \<open>splitGoFile\<close> does not read the directory, takes the suffix
  from \<open>generateFilenameSuffix\<close> as it is, and hands the whole import list to
  \<open>writeGoFile\<close> for every group.
\<close>

function splitLoop_part000 ::
  "env \<Rightarrow> locals \<Rightarrow> int \<Rightarrow> written list \<Rightarrow> error option \<times> written list" where
  "splitLoop_part000 e L i out =
     (if i < numFiles L then
        let start = i * funcsPerFile L;
            end0 = start + funcsPerFile L;
            endIdx = (if end0 > int (length (funcs L)) then int (length (funcs L)) else end0)
        in if start \<ge> int (length (funcs L)) then (None, out)
           else
             (case slice (funcs L) start endIdx of
                None \<Rightarrow> (Some SliceBounds, out)
              | Some grp \<Rightarrow>
                  let typesForFile = (if i = 0 then typeDecls L else []);
                      suffix = generateFilenameSuffix (unicodeLower e) grp (i = 0);
                      outputFile = pathJoin e (outputDir L) (fileName (baseFileName L) suffix)
                  in (case writeGoFile e outputFile (packageName L) (imps L) typesForFile grp of
                        Some err \<Rightarrow> (Some (WriteError outputFile err), out)
                      | None \<Rightarrow>
                          splitLoop_part000 e L (i + 1)
                            (out @ [\<lparr>w_index = i, w_suffix = suffix, w_outputFile = outputFile,
                                     w_imports = imps L, w_types = typesForFile,
                                     w_functions = grp\<rparr>])))
      else (None, out))"
  by pat_completeness auto
termination
  by (relation "measure (\<lambda>(e, L, i, out). nat (numFiles L - i))") auto

declare splitLoop_part000.simps [simp del]

definition splitGoFile_part000 :: "env \<Rightarrow> string \<Rightarrow> int \<Rightarrow> error option \<times> written list" where
  "splitGoFile_part000 e inputFile n =
     (case parseFile e inputFile of
        Inl err \<Rightarrow> (Some (ParseError err), [])
      | Inr node \<Rightarrow>
          if length (extractFunctions node) = 0 then (Some NoFunctions, [])
          else if n = 0 then (Some DivideByZero, [])
          else
            let len = int (length (extractFunctions node));
                perFile = (if len smod n \<noteq> 0 then len sdiv n + 1 else len sdiv n)
            in splitLoop_part000 e
                 \<lparr>packageName = file_Name node,
                  imps = extractImports node,
                  typeDecls = extractTypeDecls node,
                  funcs = extractFunctions node,
                  baseFileName = TrimSuffix (pathBase e inputFile) ''.go'',
                  outputDir = pathDir e inputFile,
                  existingFiles = {},
                  funcsPerFile = perFile,
                  numFiles = n\<rparr>
                 0 [])"

section \<open>Notions used to state the properties\<close>

text \<open>
  The record that iteration \<open>i\<close> of the loop appends to the log for the group
  \<open>grp\<close>, and the call of \<open>writeGoFile\<close> that this record stands for.
\<close>

definition groupEntry :: "env \<Rightarrow> locals \<Rightarrow> int \<Rightarrow> string set \<Rightarrow> FuncDecl list \<Rightarrow> written" where
  "groupEntry e L i usedNames grp =
     \<lparr>w_index = i,
      w_suffix = generateUniqueFilenameSuffix (unicodeLower e) grp (i = 0)
                   (baseFileName L) (existingFiles L) usedNames,
      w_outputFile = pathJoin e (outputDir L)
                       (fileName (baseFileName L)
                          (generateUniqueFilenameSuffix (unicodeLower e) grp (i = 0)
                             (baseFileName L) (existingFiles L) usedNames)),
      w_imports = analyzeRequiredImports grp (if i = 0 then typeDecls L else []) (imps L),
      w_types = (if i = 0 then typeDecls L else []),
      w_functions = grp\<rparr>"

definition writeEntry :: "env \<Rightarrow> string \<Rightarrow> written \<Rightarrow> string option" where
  "writeEntry e pkg w =
     writeGoFile e (w_outputFile w) pkg (w_imports w) (w_types w) (w_functions w)"

text \<open>The environment in which no file creation and no printing fails.\<close>

definition quiet :: "env \<Rightarrow> env" where
  "quiet e = e\<lparr>osCreate := (\<lambda>filename. None), formatNode := (\<lambda>filename file. None)\<rparr>"

text \<open>
  The last resort of \<open>generateUniqueFilenameSuffix\<close> is reached when the base suffix,
  every alternative and every numbered suffix from 1 to 999 is taken.
\<close>

definition exhausted :: "string \<Rightarrow> string set \<Rightarrow> string set \<Rightarrow> string \<Rightarrow> bool" where
  "exhausted base existing usedNames baseSuffix =
     (\<not> isFree base existing usedNames baseSuffix \<and>
      find (isFree base existing usedNames) alternatives = None \<and>
      find (\<lambda>i. isFree base existing usedNames (numbered baseSuffix i)) [1..999] = None)"

text \<open>
  The lower-cased names that \<open>generateFilenameSuffix\<close> collects, the first keyword of
  the table that occurs in one of them, and the suffix made of the first byte of a name.
\<close>

definition funcNamesOf :: "(string \<Rightarrow> string) \<Rightarrow> FuncDecl list \<Rightarrow> string list" where
  "funcNamesOf uni functions =
     List.map_filter (\<lambda>fn. map_option (ToLower uni) (fn_Name fn)) functions"

definition keywordMatch :: "string list \<Rightarrow> string option" where
  "keywordMatch funcNames =
     find (\<lambda>keyword. list_ex (\<lambda>name. Contains name keyword) funcNames) keywordTable"

definition letterSuffix :: "(string \<Rightarrow> string) \<Rightarrow> string \<Rightarrow> string" where
  "letterSuffix uni name =
     (if length (ToLower uni name) > 0
      then ToLower uni (string_of_byte (hd (ToLower uni name)))
      else ''funcs'')"

section \<open>Example inputs\<close>

text \<open>
  A function whose body calls \<open>fmt.Println\<close>, a type declaration that mentions
  \<open>os.File\<close>, and a file that imports \<open>fmt\<close>, \<open>os\<close> and \<open>strings\<close>, declares
  the type when \<open>withType\<close> holds and declares one function for each name.
\<close>

definition ex_fn :: "string \<Rightarrow> FuncDecl" where
  "ex_fn name =
     \<lparr>fn_Name = Some name,
      fn_nodes = [Ident name, Node [SelectorExpr (Ident ''fmt'') ''Println'']]\<rparr>"

definition ex_type :: GenDecl where
  "ex_type =
     \<lparr>Tok = T_TYPE,
      Specs = [TypeSpecS (Node [Ident ''T'', Node [SelectorExpr (Ident ''os'') ''File'']])]\<rparr>"

definition quoted :: "string \<Rightarrow> string" where
  "quoted s = CHR 0x22 # s @ [CHR 0x22]"

definition ex_imports :: GenDecl where
  "ex_imports =
     \<lparr>Tok = T_IMPORT,
      Specs = [ImportSpecS \<lparr>imp_Name = None, imp_Path_Value = quoted ''fmt''\<rparr>,
               ImportSpecS \<lparr>imp_Name = None, imp_Path_Value = quoted ''os''\<rparr>,
               ImportSpecS \<lparr>imp_Name = None, imp_Path_Value = quoted ''strings''\<rparr>]\<rparr>"

definition ex_file :: "bool \<Rightarrow> string list \<Rightarrow> File" where
  "ex_file withType names =
     \<lparr>file_Name = ''p'',
      file_Decls = GenDeclD ex_imports # (if withType then [GenDeclD ex_type] else [])
                   @ map (\<lambda>name. FuncDeclD (ex_fn name)) names\<rparr>"

text \<open>
  An environment: the ASCII strings are the only ones, every path parses to \<open>file\<close>,
  the directory holds the files \<open>names\<close>, and creating a file fails as \<open>create\<close>
  says.
\<close>

definition ex_env :: "File \<Rightarrow> string list \<Rightarrow> (string \<Rightarrow> string option) \<Rightarrow> env" where
  "ex_env file names create =
     \<lparr>unicodeLower = (\<lambda>s. s),
      parseFile = (\<lambda>path. Inr file),
      pathBase = (\<lambda>path. path),
      pathDir = (\<lambda>path. ''.''),
      pathJoin = (\<lambda>dir name. name),
      readDir = (\<lambda>dir. Inr (map (\<lambda>name. \<lparr>entry_Name = name, entry_IsDir = False\<rparr>) names)),
      osCreate = create,
      formatNode = (\<lambda>filename f. None)\<rparr>"

text \<open>
  The variables of \<open>splitGoFile\<close> when its loop starts, for the parsed file \<open>node\<close>
  and the snapshot \<open>existing\<close> of the directory.
\<close>

definition runLocals :: "env \<Rightarrow> string \<Rightarrow> File \<Rightarrow> string set \<Rightarrow> int \<Rightarrow> locals" where
  "runLocals e inputFile node existing n =
     \<lparr>packageName = file_Name node,
      imps = extractImports node,
      typeDecls = extractTypeDecls node,
      funcs = extractFunctions node,
      baseFileName = TrimSuffix (pathBase e inputFile) ''.go'',
      outputDir = pathDir e inputFile,
      existingFiles = existing,
      funcsPerFile =
        (if int (length (extractFunctions node)) smod n \<noteq> 0
         then int (length (extractFunctions node)) sdiv n + 1
         else int (length (extractFunctions node)) sdiv n),
      numFiles = n\<rparr>"

text \<open>
  A directory that holds a file for the suffix \<open>types\<close>, for every alternative and
  for \<open>types1\<close> to \<open>types999\<close>, all with the base name \<open>x\<close>.
\<close>

definition ex_crowded :: "string list" where
  "ex_crowded =
     map (fileName ''x'') (''types'' # alternatives @ map (numbered ''types'') [1..999])"

text \<open>
  A function that mentions no package, a path literal between back quotes, a file with
  one import, written as the literal \<open>lit\<close>, and one function that calls
  \<open>fmt.Println\<close>, and a file that imports \<open>fmt\<close> for two functions of which
  only the first one mentions it.
\<close>

definition ex_plain_fn :: "string \<Rightarrow> FuncDecl" where
  "ex_plain_fn name = \<lparr>fn_Name = Some name, fn_nodes = [Ident name]\<rparr>"

definition rawquoted :: "string \<Rightarrow> string" where
  "rawquoted s = CHR 0x60 # s @ [CHR 0x60]"

definition ex_import_file :: "string \<Rightarrow> File" where
  "ex_import_file lit =
     \<lparr>file_Name = ''p'',
      file_Decls =
        [GenDeclD \<lparr>Tok = T_IMPORT,
                   Specs = [ImportSpecS \<lparr>imp_Name = None, imp_Path_Value = lit\<rparr>]\<rparr>,
         FuncDeclD (ex_fn ''ParseA'')]\<rparr>"

definition ex_mixed_file :: File where
  "ex_mixed_file =
     \<lparr>file_Name = ''p'',
      file_Decls =
        [GenDeclD \<lparr>Tok = T_IMPORT,
                   Specs = [ImportSpecS \<lparr>imp_Name = None, imp_Path_Value = quoted ''fmt''\<rparr>]\<rparr>,
         FuncDeclD (ex_fn ''ParseA''),
         FuncDeclD (ex_plain_fn ''ParseB'')]\<rparr>"

section \<open>The loop, one iteration at a time\<close>

lemma splitLoop_unfold:
  "splitLoop e L i used out =
     (if i < numFiles L \<and> i * funcsPerFile L < int (length (funcs L)) then
        (case slice (funcs L) (i * funcsPerFile L)
                (min (i * funcsPerFile L + funcsPerFile L) (int (length (funcs L)))) of
           None \<Rightarrow> (Some SliceBounds, out)
         | Some grp \<Rightarrow>
             (case writeEntry e (packageName L) (groupEntry e L i used grp) of
                Some err \<Rightarrow> (Some (WriteError (w_outputFile (groupEntry e L i used grp)) err), out)
              | None \<Rightarrow> splitLoop e L (i + 1) (insert (w_suffix (groupEntry e L i used grp)) used)
                          (out @ [groupEntry e L i used grp])))
      else (None, out))"
  apply (subst splitLoop.simps)
  apply (auto simp: Let_def groupEntry_def writeEntry_def min_def split: option.splits)
  done

lemma splitLoop_stop:
  assumes "\<not> (i < numFiles L \<and> i * funcsPerFile L < int (length (funcs L)))"
  shows "splitLoop e L i used out = (None, out)"
  by (subst splitLoop_unfold) (simp only: assms if_False)

lemma splitLoop_panic:
  assumes "i < numFiles L" "i * funcsPerFile L < int (length (funcs L))"
    and "slice (funcs L) (i * funcsPerFile L)
           (min (i * funcsPerFile L + funcsPerFile L) (int (length (funcs L)))) = None"
  shows "splitLoop e L i used out = (Some SliceBounds, out)"
  by (subst splitLoop_unfold) (simp add: assms)

lemma splitLoop_fail:
  assumes "i < numFiles L" "i * funcsPerFile L < int (length (funcs L))"
    and "slice (funcs L) (i * funcsPerFile L)
           (min (i * funcsPerFile L + funcsPerFile L) (int (length (funcs L)))) = Some grp"
    and "writeEntry e (packageName L) (groupEntry e L i used grp) = Some err"
  shows "splitLoop e L i used out =
           (Some (WriteError (w_outputFile (groupEntry e L i used grp)) err), out)"
  by (subst splitLoop_unfold) (simp add: assms)

lemma splitLoop_next:
  assumes "i < numFiles L" "i * funcsPerFile L < int (length (funcs L))"
    and "slice (funcs L) (i * funcsPerFile L)
           (min (i * funcsPerFile L + funcsPerFile L) (int (length (funcs L)))) = Some grp"
    and "writeEntry e (packageName L) (groupEntry e L i used grp) = None"
  shows "splitLoop e L i used out =
           splitLoop e L (i + 1) (insert (w_suffix (groupEntry e L i used grp)) used)
             (out @ [groupEntry e L i used grp])"
  by (subst splitLoop_unfold) (simp add: assms)

lemma splitLoop_append:
  "splitLoop e L i used out =
     (fst (splitLoop e L i used []), out @ snd (splitLoop e L i used []))"
proof (induction "nat (numFiles L - i)" arbitrary: i used out rule: less_induct)
  case less
  have IH: "splitLoop e L (i + 1) u o' =
     (fst (splitLoop e L (i + 1) u []), o' @ snd (splitLoop e L (i + 1) u []))"
    if "i < numFiles L" for u o'
    using that by (intro less.hyps) simp
  show ?case
  proof (cases "i < numFiles L \<and> i * funcsPerFile L < int (length (funcs L))")
    case False
    then show ?thesis by (simp add: splitLoop_stop)
  next
    case True
    then have lt: "i < numFiles L" and st: "i * funcsPerFile L < int (length (funcs L))"
      by simp_all
    show ?thesis
    proof (cases "slice (funcs L) (i * funcsPerFile L)
                (min (i * funcsPerFile L + funcsPerFile L) (int (length (funcs L))))")
      case None
      then show ?thesis by (simp add: splitLoop_panic [OF lt st])
    next
      case (Some grp)
      note sl = this
      show ?thesis
      proof (cases "writeEntry e (packageName L) (groupEntry e L i used grp)")
        case None
        show ?thesis
          unfolding splitLoop_next [OF lt st sl None]
          by (subst IH [OF lt], subst (2 3) IH [OF lt]) simp
      next
        case (Some err)
        show ?thesis by (simp add: splitLoop_fail [OF lt st sl Some])
      qed
    qed
  qed
qed

lemma splitLoop_run_induct [case_names stop panic fail step]:
  assumes stop: "\<And>i used.
      \<not> (i < numFiles L \<and> i * funcsPerFile L < int (length (funcs L))) \<Longrightarrow> P i used None []"
    and panic: "\<And>i used.
      i < numFiles L \<Longrightarrow> i * funcsPerFile L < int (length (funcs L)) \<Longrightarrow>
      slice (funcs L) (i * funcsPerFile L)
        (min (i * funcsPerFile L + funcsPerFile L) (int (length (funcs L)))) = None \<Longrightarrow>
      P i used (Some SliceBounds) []"
    and fail: "\<And>i used grp err.
      i < numFiles L \<Longrightarrow> i * funcsPerFile L < int (length (funcs L)) \<Longrightarrow>
      slice (funcs L) (i * funcsPerFile L)
        (min (i * funcsPerFile L + funcsPerFile L) (int (length (funcs L)))) = Some grp \<Longrightarrow>
      writeEntry e (packageName L) (groupEntry e L i used grp) = Some err \<Longrightarrow>
      P i used (Some (WriteError (w_outputFile (groupEntry e L i used grp)) err)) []"
    and step: "\<And>i used grp r new.
      i < numFiles L \<Longrightarrow> i * funcsPerFile L < int (length (funcs L)) \<Longrightarrow>
      slice (funcs L) (i * funcsPerFile L)
        (min (i * funcsPerFile L + funcsPerFile L) (int (length (funcs L)))) = Some grp \<Longrightarrow>
      writeEntry e (packageName L) (groupEntry e L i used grp) = None \<Longrightarrow>
      splitLoop e L (i + 1) (insert (w_suffix (groupEntry e L i used grp)) used) [] = (r, new) \<Longrightarrow>
      P (i + 1) (insert (w_suffix (groupEntry e L i used grp)) used) r new \<Longrightarrow>
      P i used r (groupEntry e L i used grp # new)"
  shows "P i used (fst (splitLoop e L i used [])) (snd (splitLoop e L i used []))"
proof (induction "nat (numFiles L - i)" arbitrary: i used rule: less_induct)
  case less
  show ?case
  proof (cases "i < numFiles L \<and> i * funcsPerFile L < int (length (funcs L))")
    case False
    then show ?thesis by (simp add: splitLoop_stop stop)
  next
    case True
    then have lt: "i < numFiles L" and st: "i * funcsPerFile L < int (length (funcs L))"
      by simp_all
    show ?thesis
    proof (cases "slice (funcs L) (i * funcsPerFile L)
                (min (i * funcsPerFile L + funcsPerFile L) (int (length (funcs L))))")
      case None
      then show ?thesis by (simp add: splitLoop_panic [OF lt st] panic [OF lt st])
    next
      case (Some grp)
      note sl = this
      show ?thesis
      proof (cases "writeEntry e (packageName L) (groupEntry e L i used grp)")
        case None
        let ?u = "insert (w_suffix (groupEntry e L i used grp)) used"
        let ?r = "splitLoop e L (i + 1) ?u []"
        have IH: "P (i + 1) ?u (fst ?r) (snd ?r)"
          using lt by (intro less.hyps) simp
        have eq: "splitLoop e L i used [] = (fst ?r, groupEntry e L i used grp # snd ?r)"
          unfolding splitLoop_next [OF lt st sl None]
          by (subst splitLoop_append) simp
        show ?thesis
          unfolding eq using step [OF lt st sl None _ IH] by simp
      next
        case (Some err)
        show ?thesis by (simp add: splitLoop_fail [OF lt st sl Some] fail [OF lt st sl Some])
      qed
    qed
  qed
qed

lemma slice_chunk:
  assumes "0 \<le> i" "1 \<le> p" "i * p < int (length xs)"
  shows "slice xs (i * p) (min (i * p + p) (int (length xs)))
         = Some (take (nat p) (drop (nat i * nat p) xs))"
proof -
  have n: "nat (i * p) = nat i * nat p"
    using assms by (simp add: nat_mult_distrib)
  have "0 \<le> i * p" using assms by simp
  then show ?thesis
    using assms by (auto simp: slice_def min_def n [symmetric])
qed

lemma groupEntry_sel [simp]:
  "w_index (groupEntry e L i used grp) = i"
  "w_functions (groupEntry e L i used grp) = grp"
  "w_types (groupEntry e L i used grp) = (if i = 0 then typeDecls L else [])"
  "w_imports (groupEntry e L i used grp)
     = analyzeRequiredImports grp (if i = 0 then typeDecls L else []) (imps L)"
  "w_suffix (groupEntry e L i used grp)
     = generateUniqueFilenameSuffix (unicodeLower e) grp (i = 0)
         (baseFileName L) (existingFiles L) used"
  "w_outputFile (groupEntry e L i used grp)
     = pathJoin e (outputDir L) (fileName (baseFileName L)
         (generateUniqueFilenameSuffix (unicodeLower e) grp (i = 0)
            (baseFileName L) (existingFiles L) used))"
  by (simp_all add: groupEntry_def)

lemma loop_groups:
  assumes p: "1 \<le> funcsPerFile L" and i0: "0 \<le> i"
  shows "map w_functions (snd (splitLoop e L i used []))
       = map (\<lambda>k. take (nat (funcsPerFile L)) (drop (k * nat (funcsPerFile L)) (funcs L)))
           [nat i ..< nat i + length (snd (splitLoop e L i used []))]"
    and "map w_index (snd (splitLoop e L i used []))
       = map int [nat i ..< nat i + length (snd (splitLoop e L i used []))]"
    and "fst (splitLoop e L i used []) = None \<Longrightarrow>
          int (length (funcs L)) \<le> numFiles L * funcsPerFile L \<Longrightarrow>
          int (length (funcs L))
            \<le> int (nat i + length (snd (splitLoop e L i used []))) * funcsPerFile L"
    and "snd (splitLoop e L i used []) \<noteq> [] \<Longrightarrow>
          (nat i + length (snd (splitLoop e L i used [])) - 1) * nat (funcsPerFile L)
            < length (funcs L)"
proof -
  define P where "P = (\<lambda>i (used :: string set) (r :: error option) (new :: written list). 0 \<le> i \<longrightarrow>
     map w_functions new
       = map (\<lambda>k. take (nat (funcsPerFile L)) (drop (k * nat (funcsPerFile L)) (funcs L)))
           [nat i ..< nat i + length new]
     \<and> map w_index new = map int [nat i ..< nat i + length new]
     \<and> (r = None \<longrightarrow> int (length (funcs L)) \<le> numFiles L * funcsPerFile L \<longrightarrow>
          int (length (funcs L)) \<le> int (nat i + length new) * funcsPerFile L)
     \<and> (new \<noteq> [] \<longrightarrow> (nat i + length new - 1) * nat (funcsPerFile L) < length (funcs L)))"
  have "P i used (fst (splitLoop e L i used [])) (snd (splitLoop e L i used []))"
  proof (induction rule: splitLoop_run_induct [where e = e and L = L])
    case (stop i used)
    have "int (length (funcs L)) \<le> i * funcsPerFile L"
      if cover: "int (length (funcs L)) \<le> numFiles L * funcsPerFile L"
    proof (cases "i < numFiles L")
      case True
      with stop show ?thesis by simp
    next
      case False
      then have "numFiles L * funcsPerFile L \<le> i * funcsPerFile L"
        using p by (intro mult_right_mono) simp_all
      with cover show ?thesis by linarith
    qed
    then show ?case by (simp add: P_def)
  next
    case (panic i used)
    have "\<not> 0 \<le> i"
      using slice_chunk [OF _ p panic(2)] panic(3) by auto
    then show ?case by (simp add: P_def)
  next
    case (fail i used grp err)
    then show ?case by (simp add: P_def)
  next
    case (step i used grp r new)
    show ?case
      unfolding P_def
    proof
      assume i0: "0 \<le> i"
      then have i1: "0 \<le> i + 1" by simp
      note IH = step.IH [unfolded P_def, rule_format, OF i1]
      have grp: "grp = take (nat (funcsPerFile L)) (drop (nat i * nat (funcsPerFile L)) (funcs L))"
        using slice_chunk [OF i0 p step.hyps(2)] step.hyps(3) by simp
      have n1: "nat (i + 1) = Suc (nat i)" using i0 by simp
      have "int (nat i * nat (funcsPerFile L)) = i * funcsPerFile L"
        using i0 p by simp
      then have st: "nat i * nat (funcsPerFile L) < length (funcs L)"
        using step.hyps(2) by linarith
      have r: "[nat i ..< nat i + length (groupEntry e L i used grp # new)]
                 = nat i # [nat (i + 1) ..< nat (i + 1) + length new]"
        by (simp add: n1 upt_conv_Cons del: upt_Suc)
      have l: "nat i + length (groupEntry e L i used grp # new) = nat (i + 1) + length new"
        by (simp add: n1)
      have a: "map w_functions (groupEntry e L i used grp # new)
         = map (\<lambda>k. take (nat (funcsPerFile L)) (drop (k * nat (funcsPerFile L)) (funcs L)))
             [nat i ..< nat i + length (groupEntry e L i used grp # new)]"
        unfolding r using IH grp by simp
      have b: "map w_index (groupEntry e L i used grp # new)
         = map int [nat i ..< nat i + length (groupEntry e L i used grp # new)]"
        unfolding r using IH i0 by simp
      have c: "r = None \<longrightarrow>
            int (length (funcs L)) \<le> numFiles L * funcsPerFile L \<longrightarrow>
            int (length (funcs L))
              \<le> int (nat i + length (groupEntry e L i used grp # new)) * funcsPerFile L"
        unfolding l using IH by blast
      have d: "(nat i + length (groupEntry e L i used grp # new) - 1) * nat (funcsPerFile L)
              < length (funcs L)"
      proof (cases "new = []")
        case True
        with st show ?thesis by simp
      next
        case False
        with IH have "(nat (i + 1) + length new - 1) * nat (funcsPerFile L) < length (funcs L)"
          by blast
        then show ?thesis unfolding l .
      qed
      from a b c d
      show "map w_functions (groupEntry e L i used grp # new)
         = map (\<lambda>k. take (nat (funcsPerFile L)) (drop (k * nat (funcsPerFile L)) (funcs L)))
             [nat i ..< nat i + length (groupEntry e L i used grp # new)]
       \<and> map w_index (groupEntry e L i used grp # new)
         = map int [nat i ..< nat i + length (groupEntry e L i used grp # new)]
       \<and> (r = None \<longrightarrow>
            int (length (funcs L)) \<le> numFiles L * funcsPerFile L \<longrightarrow>
            int (length (funcs L))
              \<le> int (nat i + length (groupEntry e L i used grp # new)) * funcsPerFile L)
       \<and> (groupEntry e L i used grp # new \<noteq> [] \<longrightarrow>
            (nat i + length (groupEntry e L i used grp # new) - 1) * nat (funcsPerFile L)
              < length (funcs L))"
        by blast
    qed
  qed
  then show "map w_functions (snd (splitLoop e L i used []))
       = map (\<lambda>k. take (nat (funcsPerFile L)) (drop (k * nat (funcsPerFile L)) (funcs L)))
           [nat i ..< nat i + length (snd (splitLoop e L i used []))]"
    and "map w_index (snd (splitLoop e L i used []))
       = map int [nat i ..< nat i + length (snd (splitLoop e L i used []))]"
    and "fst (splitLoop e L i used []) = None \<Longrightarrow>
          int (length (funcs L)) \<le> numFiles L * funcsPerFile L \<Longrightarrow>
          int (length (funcs L))
            \<le> int (nat i + length (snd (splitLoop e L i used []))) * funcsPerFile L"
    and "snd (splitLoop e L i used []) \<noteq> [] \<Longrightarrow>
          (nat i + length (snd (splitLoop e L i used [])) - 1) * nat (funcsPerFile L)
            < length (funcs L)"
    using i0 by (simp_all add: P_def)
qed

lemma splitGoFile_loop:
  assumes "parseFile e inputFile = Inr node"
    and "extractFunctions node \<noteq> []"
    and "getExistingFiles e (pathDir e inputFile) = Inr existing"
    and "n \<noteq> 0"
  shows "splitGoFile e inputFile n = splitLoop e (runLocals e inputFile node existing n) 0 {} []"
  using assms by (simp add: splitGoFile_def runLocals_def Let_def)

lemma splitGoFile_None:
  assumes "splitGoFile e inputFile n = (None, created)"
    and "parseFile e inputFile = Inr node"
  obtains existing where "extractFunctions node \<noteq> []"
    and "getExistingFiles e (pathDir e inputFile) = Inr existing"
    and "n \<noteq> 0"
    and "splitLoop e (runLocals e inputFile node existing n) 0 {} [] = (None, created)"
  using assms
  by (auto simp: splitGoFile_def runLocals_def Let_def split: sum.splits if_splits)

lemma splitGoFile_log:
  assumes "snd (splitGoFile e inputFile n) = created" and "created \<noteq> []"
    and "parseFile e inputFile = Inr node"
  obtains existing where "extractFunctions node \<noteq> []"
    and "getExistingFiles e (pathDir e inputFile) = Inr existing"
    and "n \<noteq> 0"
    and "snd (splitLoop e (runLocals e inputFile node existing n) 0 {} []) = created"
  using assms
  by (auto simp: splitGoFile_def runLocals_def Let_def split: sum.splits if_splits)

lemma runLocals_sel [simp]:
  "packageName (runLocals e inputFile node existing n) = file_Name node"
  "imps (runLocals e inputFile node existing n) = extractImports node"
  "typeDecls (runLocals e inputFile node existing n) = extractTypeDecls node"
  "funcs (runLocals e inputFile node existing n) = extractFunctions node"
  "baseFileName (runLocals e inputFile node existing n) = TrimSuffix (pathBase e inputFile) ''.go''"
  "outputDir (runLocals e inputFile node existing n) = pathDir e inputFile"
  "existingFiles (runLocals e inputFile node existing n) = existing"
  "numFiles (runLocals e inputFile node existing n) = n"
  by (simp_all add: runLocals_def)

lemma perFile_ceil:
  assumes "0 < n"
  shows "funcsPerFile (runLocals e inputFile node existing n)
         = int ((length (extractFunctions node) + nat n - 1) div nat n)"
proof -
  define F where "F = length (extractFunctions node)"
  define N where "N = nat n"
  have n: "n = int N" and N: "0 < N" using assms by (simp_all add: N_def)
  have sd: "int F sdiv n = int (F div N)"
    by (simp add: signed_divide_int_def n sgn_if zdiv_int)
  have sm: "int F smod n = int (F mod N)"
    by (simp add: signed_modulo_int_def n sgn_if zmod_int)
  have "(if F mod N \<noteq> 0 then F div N + 1 else F div N) = (F + N - 1) div N"
  proof (cases "F mod N = 0")
    case True
    then obtain q where q: "F = N * q" by (auto simp: mod_eq_0_iff_dvd dvd_def)
    have "(N * q + N - 1) div N = q"
      using N by (intro div_nat_eqI) (simp_all add: algebra_simps)
    with True q N show ?thesis by simp
  next
    case False
    have e: "F = N * (F div N) + F mod N" by simp
    have m: "0 < F mod N" "F mod N < N" using False N by simp_all
    have "(F + N - 1) div N = Suc (F div N)"
    proof (rule div_nat_eqI)
      show "N * Suc (F div N) \<le> F + N - 1"
        unfolding mult_Suc_right using e m by linarith
      show "F + N - 1 < N * Suc (Suc (F div N))"
        unfolding mult_Suc_right using e m by linarith
    qed
    with False show ?thesis by simp
  qed
  then have c: "(if int F smod n \<noteq> 0 then int F sdiv n + 1 else int F sdiv n)
                = int ((F + N - 1) div N)"
    by (auto simp: sd sm split: if_splits)
  have "funcsPerFile (runLocals e inputFile node existing n)
        = (if int F smod n \<noteq> 0 then int F sdiv n + 1 else int F sdiv n)"
    by (simp add: runLocals_def F_def)
  with c show ?thesis by (simp add: F_def N_def)
qed

lemma ceil_bounds:
  fixes F N :: nat
  assumes "0 < N" "0 < F"
  shows "0 < (F + N - 1) div N" and "F \<le> N * ((F + N - 1) div N)"
proof -
  show "0 < (F + N - 1) div N"
    using assms by (simp add: div_greater_zero_iff)
  have "F + N - 1 < N * ((F + N - 1) div N) + N"
    using assms(1) by (metis add.commute dividend_less_times_div)
  then show "F \<le> N * ((F + N - 1) div N)" using assms by linarith
qed

lemma ceil_unique:
  fixes F s m :: nat
  assumes "0 < s" "0 < m" "(m - 1) * s < F" "F \<le> m * s"
  shows "(F + s - 1) div s = m"
proof (rule div_nat_eqI)
  obtain k where m: "m = Suc k" using assms(2) by (cases m) simp_all
  from assms(3) have "k * s < F" by (simp add: m)
  then show "s * m \<le> F + s - 1" using assms(1) by (simp add: m algebra_simps)
  show "F + s - 1 < s * Suc m" using assms by (simp add: algebra_simps)
qed

lemma loop_entries:
  assumes "w \<in> set (snd (splitLoop e L i used []))"
  shows "w_types w = (if w_index w = 0 then typeDecls L else [])
       \<and> w_imports w = analyzeRequiredImports (w_functions w) (w_types w) (imps L)
       \<and> w_outputFile w = pathJoin e (outputDir L) (fileName (baseFileName L) (w_suffix w))"
proof -
  define Q where "Q = (\<lambda>w :: written. w_types w = (if w_index w = 0 then typeDecls L else [])
       \<and> w_imports w = analyzeRequiredImports (w_functions w) (w_types w) (imps L)
       \<and> w_outputFile w = pathJoin e (outputDir L) (fileName (baseFileName L) (w_suffix w)))"
  define P where "P = (\<lambda>(i :: int) (used :: string set) (r :: error option) (new :: written list).
       list_all Q new)"
  have "P i used (fst (splitLoop e L i used [])) (snd (splitLoop e L i used []))"
  proof (induction rule: splitLoop_run_induct [where e = e and L = L])
    case (stop i used)
    show ?case by (simp add: P_def)
  next
    case (panic i used)
    show ?case by (simp add: P_def)
  next
    case (fail i used grp err)
    show ?case by (simp add: P_def)
  next
    case (step i used grp r new)
    have "Q (groupEntry e L i used grp)" by (simp add: Q_def)
    with step.IH show ?case by (simp add: P_def)
  qed
  with assms have "Q w" by (simp add: P_def list_all_iff)
  then show ?thesis by (simp add: Q_def)
qed

lemma concat_chunks:
  "concat (map (\<lambda>k. take s (drop (k * s) xs)) [0..<m]) = take (m * s) xs"
proof (induction m)
  case 0
  show ?case by simp
next
  case (Suc m)
  have "take (m * s + s) xs = take (m * s) xs @ take s (drop (m * s) xs)"
    by (rule take_add)
  then have "take (Suc m * s) xs = take (m * s) xs @ take s (drop (m * s) xs)"
    by (simp add: add.commute)
  with Suc show ?case by simp
qed

lemma run_groups:
  assumes ok: "splitGoFile e inputFile n = (None, created)"
    and n: "0 < n"
    and parse: "parseFile e inputFile = Inr node"
  defines "F \<equiv> length (extractFunctions node)"
  defines "sz \<equiv> (F + nat n - 1) div nat n"
  shows "map w_functions created
           = map (\<lambda>k. take sz (drop (k * sz) (extractFunctions node))) [0..<length created]"
    and "map w_index created = map int [0..<length created]"
    and "0 < F" and "0 < sz" and "0 < length created"
    and "(length created - 1) * sz < F" and "F \<le> length created * sz"
    and "length created = (F + sz - 1) div sz"
proof -
  from ok parse obtain existing where fs: "extractFunctions node \<noteq> []"
    and loop: "splitLoop e (runLocals e inputFile node existing n) 0 {} [] = (None, created)"
    by (rule splitGoFile_None)
  let ?L = "runLocals e inputFile node existing n"
  show F: "0 < F" using fs by (simp add: F_def)
  have N: "0 < nat n" using n by simp
  have pf: "funcsPerFile ?L = int sz"
    using perFile_ceil [OF n] by (simp add: sz_def F_def)
  show szpos: "0 < sz" unfolding sz_def using ceil_bounds(1) [OF N F] .
  have p: "1 \<le> funcsPerFile ?L" using szpos pf by simp
  have i0: "(0::int) \<le> 0" by simp
  have fstl: "fst (splitLoop e ?L 0 {} []) = None" and sndl: "snd (splitLoop e ?L 0 {} []) = created"
    using loop by simp_all
  show "map w_functions created
           = map (\<lambda>k. take sz (drop (k * sz) (extractFunctions node))) [0..<length created]"
    using loop_groups(1) [OF p i0, of e "{}"] by (simp add: sndl pf)
  show "map w_index created = map int [0..<length created]"
    using loop_groups(2) [OF p i0, of e "{}"] by (simp add: sndl)
  have "F \<le> nat n * sz" unfolding sz_def using ceil_bounds(2) [OF N F] .
  then have "int F \<le> n * int sz"
    using n by (metis nat_0_le of_nat_mult of_nat_le_iff order_less_imp_le)
  then have cover: "int (length (funcs ?L)) \<le> numFiles ?L * funcsPerFile ?L"
    by (simp add: pf F_def)
  have "int F \<le> int (length created) * int sz"
    using loop_groups(3) [OF p i0 fstl cover] by (simp add: sndl pf F_def)
  then show up: "F \<le> length created * sz"
    by (metis of_nat_mult of_nat_le_iff)
  show len: "0 < length created"
    using up F by (cases created) simp_all
  then have ne: "snd (splitLoop e ?L 0 {} []) \<noteq> []" by (simp add: sndl)
  show low: "(length created - 1) * sz < F"
    using loop_groups(4) [OF p i0 ne] by (simp add: sndl pf F_def)
  show "length created = (F + sz - 1) div sz"
    using ceil_unique [OF szpos len low up] by simp
qed

lemma quiet_sel [simp]:
  "unicodeLower (quiet e) = unicodeLower e"
  "parseFile (quiet e) = parseFile e"
  "pathBase (quiet e) = pathBase e"
  "pathDir (quiet e) = pathDir e"
  "pathJoin (quiet e) = pathJoin e"
  "readDir (quiet e) = readDir e"
  by (simp_all add: quiet_def)

lemma quiet_writes [simp]: "writeEntry (quiet e) pkg w = None"
  by (simp add: writeEntry_def writeGoFile_def quiet_def)

lemma quiet_groupEntry [simp]: "groupEntry (quiet e) L i used grp = groupEntry e L i used grp"
  by (simp add: groupEntry_def)

lemma quiet_getExistingFiles [simp]: "getExistingFiles (quiet e) dir = getExistingFiles e dir"
  by (simp add: getExistingFiles_def)

lemma quiet_runLocals [simp]:
  "runLocals (quiet e) inputFile node existing n = runLocals e inputFile node existing n"
  by (simp add: runLocals_def)

lemma loop_first_failure:
  assumes "snd (splitLoop (quiet e) L i used []) = xs @ w # ys"
    and "\<forall>v \<in> set xs. writeEntry e (packageName L) v = None"
    and "writeEntry e (packageName L) w = Some err"
  shows "splitLoop e L i used [] = (Some (WriteError (w_outputFile w) err), xs)"
proof -
  define P where "P = (\<lambda>i (used :: string set) (r :: error option) (plan :: written list).
     \<forall>xs w ys err. plan = xs @ w # ys \<longrightarrow>
       (\<forall>v \<in> set xs. writeEntry e (packageName L) v = None) \<longrightarrow>
       writeEntry e (packageName L) w = Some err \<longrightarrow>
       splitLoop e L i used [] = (Some (WriteError (w_outputFile w) err), xs))"
  have "P i used (fst (splitLoop (quiet e) L i used [])) (snd (splitLoop (quiet e) L i used []))"
  proof (induction rule: splitLoop_run_induct [where e = "quiet e" and L = L])
    case (stop i used)
    show ?case by (simp add: P_def)
  next
    case (panic i used)
    show ?case by (simp add: P_def)
  next
    case (fail i used grp err)
    show ?case by (simp add: P_def)
  next
    case (step i used grp r new)
    let ?g = "groupEntry e L i used grp"
    note lt = step.hyps(1) and st = step.hyps(2) and sl = step.hyps(3)
    have IH: "P (i + 1) (insert (w_suffix ?g) used) r new"
      using step.IH by simp
    show ?case
      unfolding P_def
    proof (intro allI impI)
      fix xs w ys err
      assume dec: "groupEntry (quiet e) L i used grp # new = xs @ w # ys"
        and ok: "\<forall>v \<in> set xs. writeEntry e (packageName L) v = None"
        and bad: "writeEntry e (packageName L) w = Some err"
      show "splitLoop e L i used [] = (Some (WriteError (w_outputFile w) err), xs)"
      proof (cases xs)
        case Nil
        with dec have w: "w = ?g" by simp
        show ?thesis
          using splitLoop_fail [OF lt st sl, of e used err "[]"] bad
          by (simp add: w Nil)
      next
        case (Cons x xs')
        with dec have x: "x = ?g" and new: "new = xs' @ w # ys" by simp_all
        have g: "writeEntry e (packageName L) ?g = None"
          using ok by (simp add: Cons x)
        have ok': "\<forall>v \<in> set xs'. writeEntry e (packageName L) v = None"
          using ok by (simp add: Cons)
        have rest: "splitLoop e L (i + 1) (insert (w_suffix ?g) used) []
                    = (Some (WriteError (w_outputFile w) err), xs')"
          using IH new ok' bad unfolding P_def by blast
        have "splitLoop e L i used []
              = splitLoop e L (i + 1) (insert (w_suffix ?g) used) ([] @ [?g])"
          by (rule splitLoop_next [OF lt st sl g])
        also have "\<dots> = (Some (WriteError (w_outputFile w) err), ?g # xs')"
          using rest by (subst splitLoop_append) simp
        finally show ?thesis by (simp add: Cons x)
      qed
    qed
  qed
  with assms show ?thesis unfolding P_def by blast
qed

lemma log_index:
  assumes "snd (splitGoFile e inputFile n) = xs @ w # ys"
    and "parseFile e inputFile = Inr node"
  shows "w_index w = int (length xs)"
proof -
  have ne: "xs @ w # ys \<noteq> []" by simp
  from assms(1) ne assms(2) obtain existing where fs: "extractFunctions node \<noteq> []"
    and n0: "n \<noteq> 0"
    and loop: "snd (splitLoop e (runLocals e inputFile node existing n) 0 {} []) = xs @ w # ys"
    by (rule splitGoFile_log)
  let ?L = "runLocals e inputFile node existing n"
  have n: "0 < n"
  proof (rule ccontr)
    assume "\<not> 0 < n"
    then have "\<not> (0 < numFiles ?L \<and> 0 * funcsPerFile ?L < int (length (funcs ?L)))" by simp
    then have "splitLoop e ?L 0 {} [] = (None, [])" by (rule splitLoop_stop)
    with loop show False by simp
  qed
  have F: "0 < length (extractFunctions node)" using fs by simp
  have "0 < nat n" using n by simp
  from ceil_bounds(1) [OF this F] have p: "1 \<le> funcsPerFile ?L"
    by (simp add: perFile_ceil [OF n])
  have i0: "(0::int) \<le> 0" by simp
  have eq: "map w_index (xs @ w # ys) = map int [0..<length (xs @ w # ys)]"
    using loop_groups(2) [OF p i0, of e "{}"] unfolding loop by simp
  have k: "length xs < length (xs @ w # ys)" by simp
  have "w_index ((xs @ w # ys) ! length xs) = map w_index (xs @ w # ys) ! length xs"
    using k by (rule nth_map [symmetric])
  also have "\<dots> = map int [0..<length (xs @ w # ys)] ! length xs"
    by (simp only: eq)
  also have "\<dots> = int (length xs)"
    using k by (simp del: upt_Suc)
  finally show ?thesis by simp
qed

lemma log_entry_fields:
  assumes "snd (splitGoFile e inputFile n) = xs @ w # ys"
    and "parseFile e inputFile = Inr node"
  shows "w_types w = (if w_index w = 0 then extractTypeDecls node else [])"
    and "w_imports w = analyzeRequiredImports (w_functions w) (w_types w) (extractImports node)"
proof -
  have ne: "xs @ w # ys \<noteq> []" by simp
  from assms(1) ne assms(2) obtain existing where
    loop: "snd (splitLoop e (runLocals e inputFile node existing n) 0 {} []) = xs @ w # ys"
    by (rule splitGoFile_log)
  have "w \<in> set (snd (splitLoop e (runLocals e inputFile node existing n) 0 {} []))"
    by (simp add: loop)
  from loop_entries [OF this]
  show "w_types w = (if w_index w = 0 then extractTypeDecls node else [])"
    and "w_imports w = analyzeRequiredImports (w_functions w) (w_types w) (extractImports node)"
    by simp_all
qed

lemma unique_base:
  assumes "isFree base existing used (generateFilenameSuffix uni fs ht)"
  shows "generateUniqueFilenameSuffix uni fs ht base existing used
         = generateFilenameSuffix uni fs ht"
  using assms by (simp add: generateUniqueFilenameSuffix_def)

lemma unique_alternative:
  assumes "\<not> isFree base existing used (generateFilenameSuffix uni fs ht)"
    and "find (isFree base existing used) alternatives = Some a"
  shows "generateUniqueFilenameSuffix uni fs ht base existing used = a"
  using assms by (simp add: generateUniqueFilenameSuffix_def)

lemma unique_exhausted:
  assumes "exhausted base existing used (generateFilenameSuffix uni fs ht)"
  shows "generateUniqueFilenameSuffix uni fs ht base existing used
         = numbered (generateFilenameSuffix uni fs ht) 999"
  using assms by (simp add: generateUniqueFilenameSuffix_def exhausted_def)

lemma exhausted_last_taken:
  assumes "exhausted base existing used bs"
  shows "\<not> isFree base existing used (numbered bs 999)"
proof -
  have "find (\<lambda>i. isFree base existing used (numbered bs i)) [1..999] = None"
    using assms by (simp add: exhausted_def)
  then have "\<forall>i \<in> set [1..999]. \<not> isFree base existing used (numbered bs i)"
    by (simp only: find_None_iff) blast
  then show ?thesis by simp
qed

lemma unique_free_iff:
  "isFree base existing used (generateUniqueFilenameSuffix uni fs ht base existing used)
   = (\<not> exhausted base existing used (generateFilenameSuffix uni fs ht))"
proof (cases "exhausted base existing used (generateFilenameSuffix uni fs ht)")
  case True
  then show ?thesis
    using exhausted_last_taken [OF True] by (simp add: unique_exhausted)
next
  case False
  let ?bs = "generateFilenameSuffix uni fs ht"
  let ?free = "isFree base existing used"
  have "?free (generateUniqueFilenameSuffix uni fs ht base existing used)"
  proof (cases "?free ?bs")
    case True
    then show ?thesis by (simp add: unique_base)
  next
    case nb: False
    show ?thesis
    proof (cases "find ?free alternatives")
      case (Some a)
      then have "?free a" by (auto simp: find_Some_iff)
      with nb Some show ?thesis by (simp add: unique_alternative)
    next
      case None
      with False nb obtain i where i: "find (\<lambda>i. ?free (numbered ?bs i)) [1..999] = Some i"
        by (auto simp: exhausted_def)
      then have "?free (numbered ?bs i)" by (auto simp: find_Some_iff)
      with nb None i show ?thesis by (simp add: generateUniqueFilenameSuffix_def)
    qed
  qed
  with False show ?thesis by simp
qed

lemma loop_suffix:
  assumes "snd (splitLoop e L i used []) = xs @ w # ys"
  shows "w_suffix w = generateUniqueFilenameSuffix (unicodeLower e) (w_functions w) (w_index w = 0)
                        (baseFileName L) (existingFiles L) (used \<union> set (map w_suffix xs))"
proof -
  define P where "P = (\<lambda>(i :: int) (used :: string set) (r :: error option) (new :: written list).
     \<forall>xs w ys. new = xs @ w # ys \<longrightarrow>
       w_suffix w = generateUniqueFilenameSuffix (unicodeLower e) (w_functions w) (w_index w = 0)
                      (baseFileName L) (existingFiles L) (used \<union> set (map w_suffix xs)))"
  have "P i used (fst (splitLoop e L i used [])) (snd (splitLoop e L i used []))"
  proof (induction rule: splitLoop_run_induct [where e = e and L = L])
    case (stop i used)
    show ?case by (simp add: P_def)
  next
    case (panic i used)
    show ?case by (simp add: P_def)
  next
    case (fail i used grp err)
    show ?case by (simp add: P_def)
  next
    case (step i used grp r new)
    let ?g = "groupEntry e L i used grp"
    show ?case
      unfolding P_def
    proof (intro allI impI)
      fix xs w ys
      assume dec: "?g # new = xs @ w # ys"
      show "w_suffix w = generateUniqueFilenameSuffix (unicodeLower e) (w_functions w)
                           (w_index w = 0) (baseFileName L) (existingFiles L)
                           (used \<union> set (map w_suffix xs))"
      proof (cases xs)
        case Nil
        with dec have "w = ?g" by simp
        then show ?thesis by (simp add: Nil)
      next
        case (Cons x xs')
        with dec have x: "x = ?g" and new: "new = xs' @ w # ys" by simp_all
        from step.IH new
        have "w_suffix w = generateUniqueFilenameSuffix (unicodeLower e) (w_functions w)
                (w_index w = 0) (baseFileName L) (existingFiles L)
                (insert (w_suffix ?g) used \<union> set (map w_suffix xs'))"
          unfolding P_def by blast
        moreover have "insert (w_suffix ?g) used \<union> set (map w_suffix xs')
                       = used \<union> set (map w_suffix xs)"
          by (simp add: Cons x)
        ultimately show ?thesis by (simp only:)
      qed
    qed
  qed
  with assms show ?thesis unfolding P_def by blast
qed

lemma run_suffix:
  assumes "snd (splitGoFile e inputFile n) = xs @ w # ys"
    and "parseFile e inputFile = Inr node"
    and "getExistingFiles e (pathDir e inputFile) = Inr existing"
  shows "w_suffix w = generateUniqueFilenameSuffix (unicodeLower e) (w_functions w) (xs = [])
                        (TrimSuffix (pathBase e inputFile) ''.go'') existing
                        (set (map w_suffix xs))"
proof -
  have ne: "xs @ w # ys \<noteq> []" by simp
  from assms(1) ne assms(2) obtain existing' where
    ex: "getExistingFiles e (pathDir e inputFile) = Inr existing'"
    and loop: "snd (splitLoop e (runLocals e inputFile node existing' n) 0 {} []) = xs @ w # ys"
    by (rule splitGoFile_log)
  from ex assms(3) have "existing' = existing" by simp
  with loop_suffix [OF loop] log_index [OF assms(1,2)] show ?thesis by simp
qed

lemma loop_succeeds:
  assumes p: "1 \<le> funcsPerFile L"
    and w: "\<And>w. writeEntry e (packageName L) w = None"
    and i0: "0 \<le> i"
  shows "fst (splitLoop e L i used []) = None"
proof -
  define P where "P = (\<lambda>(i :: int) (used :: string set) (r :: error option) (new :: written list).
     0 \<le> i \<longrightarrow> r = None)"
  have "P i used (fst (splitLoop e L i used [])) (snd (splitLoop e L i used []))"
  proof (induction rule: splitLoop_run_induct [where e = e and L = L])
    case (stop i used)
    show ?case by (simp add: P_def)
  next
    case (panic i used)
    have "\<not> 0 \<le> i"
      using slice_chunk [OF _ p panic(2)] panic(3) by auto
    then show ?case by (simp add: P_def)
  next
    case (fail i used grp err)
    with w show ?case by simp
  next
    case (step i used grp r new)
    then show ?case by (simp add: P_def)
  qed
  with i0 show ?thesis by (simp add: P_def)
qed

lemma run_succeeds:
  assumes "parseFile e inputFile = Inr node"
    and "extractFunctions node \<noteq> []"
    and "getExistingFiles e (pathDir e inputFile) = Inr existing"
    and "0 < n"
    and "\<And>f. osCreate e f = None"
    and "\<And>f file. formatNode e f file = None"
  shows "fst (splitGoFile e inputFile n) = None"
proof -
  let ?L = "runLocals e inputFile node existing n"
  have n0: "n \<noteq> 0" using assms(4) by simp
  have F: "0 < length (extractFunctions node)" using assms(2) by simp
  have "0 < nat n" using assms(4) by simp
  from ceil_bounds(1) [OF this F] have p: "1 \<le> funcsPerFile ?L"
    by (simp add: perFile_ceil [OF assms(4)])
  have w: "writeEntry e (packageName ?L) w = None" for w
    by (simp add: writeEntry_def writeGoFile_def assms(5,6))
  show ?thesis
    unfolding splitGoFile_loop [OF assms(1,2,3) n0]
    by (rule loop_succeeds [OF p w]) simp
qed

lemma gfs_types: "generateFilenameSuffix uni fs True = ''types''"
  by (simp add: generateFilenameSuffix_def)

lemma gfs_no_keyword:
  assumes "fs = f # fs'" and "fn_Name f = Some name"
    and "keywordMatch (funcNamesOf uni fs) = None"
  shows "generateFilenameSuffix uni fs False = letterSuffix uni name"
  using assms
  by (simp add: generateFilenameSuffix_def keywordMatch_def funcNamesOf_def letterSuffix_def
      Let_def)

lemma digits_nonempty: "digits n \<noteq> []"
  by (induction n rule: digits.induct) (subst digits.simps, simp)

lemma numbered_neq: "numbered bs i \<noteq> bs"
  by (simp add: numbered_def itoa_def digits_nonempty)

lemma types_not_alternative: "''types'' \<notin> set alternatives"
  by code_simp

lemma unique_types_iff:
  "(generateUniqueFilenameSuffix uni fs True base existing used = ''types'')
   = isFree base existing used ''types''"
proof (cases "isFree base existing used ''types''")
  case True
  then show ?thesis by (simp add: unique_base gfs_types)
next
  case False
  let ?free = "isFree base existing used"
  have "generateUniqueFilenameSuffix uni fs True base existing used \<noteq> ''types''"
  proof (cases "find ?free alternatives")
    case (Some a)
    then have "a \<in> set alternatives" by (auto simp: find_Some_iff)
    with types_not_alternative have "a \<noteq> ''types''" by blast
    with False Some show ?thesis by (simp add: unique_alternative gfs_types)
  next
    case None
    with False show ?thesis
      by (simp add: generateUniqueFilenameSuffix_def gfs_types numbered_neq Let_def
          split: option.splits)
  qed
  with False show ?thesis by simp
qed

lemma HasPrefix_append: "HasPrefix (p @ r) p"
  by (induction p) simp_all

lemma HasSuffix_fileName: "HasSuffix (fileName b s) ''.go''"
proof -
  have "rev (fileName b s) = rev ''.go'' @ rev (b @ ''_'' @ s)"
    by (simp add: fileName_def)
  then show ?thesis
    unfolding HasSuffix_def by (simp only: HasPrefix_append)
qed

lemma getExistingFiles_ex_env:
  assumes "\<forall>name \<in> set names. HasSuffix name ''.go''"
  shows "getExistingFiles (ex_env file names create) dir = Inr (set names)"
proof -
  have "filter (\<lambda>entry. \<not> entry_IsDir entry \<and> HasSuffix (entry_Name entry) ''.go'')
          (map (\<lambda>name. \<lparr>entry_Name = name, entry_IsDir = False\<rparr>) names)
        = map (\<lambda>name. \<lparr>entry_Name = name, entry_IsDir = False\<rparr>) names"
    using assms by (simp add: filter_map o_def)
  then show ?thesis
    by (simp add: getExistingFiles_def ex_env_def o_def)
qed

lemma crowded_exhausted: "exhausted ''x'' (set ex_crowded) {} ''types''"
proof -
  have taken: "\<not> isFree ''x'' (set ex_crowded) {} s"
    if "s \<in> set (''types'' # alternatives @ map (numbered ''types'') [1..999])" for s
  proof -
    from that have "fileName ''x'' s \<in> set ex_crowded"
      unfolding ex_crowded_def set_map by (rule imageI)
    then show ?thesis by (simp add: isFree_def)
  qed
  have a: "\<not> isFree ''x'' (set ex_crowded) {} ''types''"
    by (rule taken) simp
  have b: "find (isFree ''x'' (set ex_crowded) {}) alternatives = None"
    unfolding find_None_iff using taken by simp
  have c: "find (\<lambda>i. isFree ''x'' (set ex_crowded) {} (numbered ''types'' i)) [1..999] = None"
    unfolding find_None_iff using taken by simp
  from a b c show ?thesis by (simp add: exhausted_def)
qed

section \<open>A file without functions\<close>

text \<open>
  Claim C8. When the parsed file has no function declaration, type declarations or not,
  \<open>splitGoFile\<close> returns the error "no functions found in file" and the log of files
  written is empty; the test comes before the directory is read and before the number of
  functions per file is computed.
\<close>

theorem C8_no_functions:
  assumes "parseFile e inputFile = Inr node"
    and "extractFunctions node = []"
  shows "splitGoFile e inputFile n = (Some NoFunctions, [])"
  using assms by (simp add: splitGoFile_def)

theorem C8_no_functions_witness:
  "parseFile (ex_env (ex_file True []) [] (\<lambda>f. None)) ''x.go'' = Inr (ex_file True [])
   \<and> extractFunctions (ex_file True []) = []
   \<and> extractTypeDecls (ex_file True []) = [ex_type]
   \<and> splitGoFile (ex_env (ex_file True []) [] (\<lambda>f. None)) ''x.go'' 3 = (Some NoFunctions, [])"
proof -
  have p: "parseFile (ex_env (ex_file True []) [] (\<lambda>f. None)) ''x.go'' = Inr (ex_file True [])"
    by (simp add: ex_env_def)
  have f: "extractFunctions (ex_file True []) = []"
    by (simp add: extractFunctions_def ex_file_def)
  have t: "extractTypeDecls (ex_file True []) = [ex_type]"
    by (simp add: extractTypeDecls_def ex_file_def ex_imports_def ex_type_def)
  show ?thesis
    using C8_no_functions [OF p f, of 3] p f t by simp
qed

section \<open>The partition of the functions\<close>

text \<open>
  Claim C1. In a run that succeeds, the function lists of the files written, taken in the
  order of the groups and concatenated, are the list of function declarations of the
  source: no function is duplicated or dropped, and the order is kept within and across
  the groups. The number of files asked for is positive, as \<open>main\<close> requires
  before it calls \<open>splitGoFile\<close>.
\<close>

theorem C1_functions_preserved:
  assumes "splitGoFile e inputFile n = (None, created)"
    and "0 < n"
    and "parseFile e inputFile = Inr node"
  shows "concat (map w_functions created) = extractFunctions node"
proof -
  let ?F = "length (extractFunctions node)"
  let ?sz = "(?F + nat n - 1) div nat n"
  have "concat (map w_functions created) = take (length created * ?sz) (extractFunctions node)"
    unfolding run_groups(1) [OF assms] by (rule concat_chunks)
  with run_groups(7) [OF assms] show ?thesis by simp
qed

theorem C1_functions_preserved_witness:
  "fst (splitGoFile (ex_env (ex_file True [''ParseA'', ''ParseB'', ''ParseC'', ''ParseD'', ''ParseE'', ''ParseF'', ''ParseG'']) []
          (\<lambda>f. None)) ''x.go'' 3) = None
   \<and> concat (map w_functions
         (snd (splitGoFile (ex_env (ex_file True [''ParseA'', ''ParseB'', ''ParseC'', ''ParseD'', ''ParseE'', ''ParseF'', ''ParseG'']) []
            (\<lambda>f. None)) ''x.go'' 3)))
       = map ex_fn [''ParseA'', ''ParseB'', ''ParseC'', ''ParseD'', ''ParseE'', ''ParseF'', ''ParseG'']"
proof -
  let ?file = "ex_file True [''ParseA'', ''ParseB'', ''ParseC'', ''ParseD'', ''ParseE'', ''ParseF'', ''ParseG'']"
  let ?e = "ex_env ?file [] (\<lambda>f. None)"
  have ok: "fst (splitGoFile ?e ''x.go'' 3) = None"
    by code_simp
  then have run: "splitGoFile ?e ''x.go'' 3 = (None, snd (splitGoFile ?e ''x.go'' 3))"
    by (metis prod.collapse)
  have parse: "parseFile ?e ''x.go'' = Inr ?file"
    by (simp add: ex_env_def)
  have fs: "extractFunctions ?file = map ex_fn [''ParseA'', ''ParseB'', ''ParseC'', ''ParseD'', ''ParseE'', ''ParseF'', ''ParseG'']"
    by (simp add: extractFunctions_def ex_file_def ex_imports_def ex_type_def)
  show ?thesis
    using C1_functions_preserved [OF run _ parse] ok fs by simp
qed

text \<open>
  Claim C4. In a run that succeeds on \<open>F\<close> functions and \<open>N \<ge> 1\<close> files
  asked for, group \<open>k\<close> is the run of at most \<open>ceil(F/N)\<close> functions that starts
  at position \<open>k * ceil(F/N)\<close>: the groups are contiguous and in the order of the source,
  none is empty, and every group but the last has exactly \<open>ceil(F/N)\<close> functions.
  There are at most \<open>N\<close> and at most \<open>F\<close> groups, so no file is written for a
  group past the end of the list. Seven functions into three files give the sizes 3, 3
  and 1, and five files asked for two functions give two files.
\<close>

theorem C4_contiguous_groups:
  assumes "splitGoFile e inputFile n = (None, created)"
    and "0 < n"
    and "parseFile e inputFile = Inr node"
  shows "(\<forall>k < length created.
            w_functions (created ! k)
              = take ((length (extractFunctions node) + nat n - 1) div nat n)
                  (drop (k * ((length (extractFunctions node) + nat n - 1) div nat n))
                     (extractFunctions node))
            \<and> w_functions (created ! k) \<noteq> []
            \<and> (Suc k < length created \<longrightarrow>
                 length (w_functions (created ! k))
                   = (length (extractFunctions node) + nat n - 1) div nat n))
       \<and> length created \<le> nat n
       \<and> length created \<le> length (extractFunctions node)
       \<and> (length (extractFunctions node) = 7 \<and> n = 3 \<longrightarrow>
            map (\<lambda>w. length (w_functions w)) created = [3, 3, 1])
       \<and> (length (extractFunctions node) = 2 \<and> n = 5 \<longrightarrow> length created = 2)"
proof -
  define fs where "fs = extractFunctions node"
  define F where "F = length fs"
  define sz where "sz = (F + nat n - 1) div nat n"
  define m where "m = length created"
  note g = run_groups [OF assms, folded fs_def, folded F_def, folded sz_def, folded m_def]
  have grp: "w_functions (created ! k) = take sz (drop (k * sz) fs)" if "k < m" for k
  proof -
    have "w_functions (created ! k) = map w_functions created ! k"
      using that by (simp add: m_def)
    also have "\<dots> = take sz (drop (k * sz) fs)"
      unfolding g(1) using that by simp
    finally show ?thesis .
  qed
  have start: "k * sz < F" if "k < m" for k
  proof -
    from that have "k \<le> m - 1" by simp
    then have "k * sz \<le> (m - 1) * sz" by (rule mult_le_mono1)
    then show ?thesis using g(6) by (rule le_less_trans)
  qed
  have nonempty: "w_functions (created ! k) \<noteq> []" if "k < m" for k
    using start [OF that] g(4) by (simp add: grp [OF that] F_def)
  have full: "length (w_functions (created ! k)) = sz" if "Suc k < m" for k
  proof -
    from that have k: "k < m" by simp
    have "k * sz + sz = Suc k * sz" by simp
    also have "\<dots> < F" using start [OF that] .
    finally show ?thesis by (simp add: grp [OF k] F_def)
  qed
  have cover: "F \<le> nat n * sz"
    unfolding sz_def using ceil_bounds(2) [of "nat n" F] g(3) assms(2) by simp
  have "(m - 1) * sz < nat n * sz" using g(6) cover by (rule less_le_trans)
  then have "m - 1 < nat n" by (rule mult_less_cancel2 [THEN iffD1, THEN conjunct2])
  then have mn: "m \<le> nat n" by simp
  have "m - 1 \<le> (m - 1) * sz" using g(4) by (cases sz) simp_all
  then have "m - 1 < F" using g(6) by (rule le_less_trans)
  then have mF: "m \<le> F" by simp
  have lens: "map (\<lambda>w. length (w_functions w)) created
                = map (\<lambda>k. length (take sz (drop (k * sz) fs))) [0..<m]"
  proof -
    have "map (\<lambda>w. length (w_functions w)) created = map length (map w_functions created)"
      by simp
    also have "\<dots> = map (\<lambda>k. length (take sz (drop (k * sz) fs))) [0..<m]"
      unfolding g(1) by simp
    finally show ?thesis .
  qed
  have seven: "map (\<lambda>w. length (w_functions w)) created = [3, 3, 1]" if "F = 7" "n = 3"
  proof -
    have sz3: "sz = 3" using that by (simp add: sz_def)
    have m3: "m = 3" using g(8) that by (simp add: sz3)
    have "[0..<3] = [0, 1, 2::nat]" by (simp add: upt_rec)
    then show ?thesis
      using that(1) unfolding lens m3 sz3 by (simp add: F_def)
  qed
  have two: "m = 2" if "F = 2" "n = 5"
  proof -
    have sz1: "sz = 1" using that by (simp add: sz_def)
    show ?thesis using g(8) that by (simp add: sz1)
  qed
  from grp nonempty full mn mF seven two show ?thesis
    unfolding fs_def [symmetric] F_def [symmetric] sz_def [symmetric] m_def [symmetric]
    by blast
qed

theorem C4_contiguous_groups_witness:
  "fst (splitGoFile (ex_env (ex_file True
          [''ParseA'', ''ParseB'', ''ParseC'', ''ParseD'', ''ParseE'', ''ParseF'', ''ParseG''])
          [] (\<lambda>f. None)) ''x.go'' 3) = None
   \<and> map (\<lambda>w. length (w_functions w))
         (snd (splitGoFile (ex_env (ex_file True
            [''ParseA'', ''ParseB'', ''ParseC'', ''ParseD'', ''ParseE'', ''ParseF'', ''ParseG''])
            [] (\<lambda>f. None)) ''x.go'' 3)) = [3, 3, 1]
   \<and> fst (splitGoFile (ex_env (ex_file False [''ParseA'', ''ParseB'']) [] (\<lambda>f. None))
          ''x.go'' 5) = None
   \<and> length (snd (splitGoFile (ex_env (ex_file False [''ParseA'', ''ParseB'']) [] (\<lambda>f. None))
          ''x.go'' 5)) = 2"
proof -
  let ?file = "ex_file True
     [''ParseA'', ''ParseB'', ''ParseC'', ''ParseD'', ''ParseE'', ''ParseF'', ''ParseG'']"
  let ?e = "ex_env ?file [] (\<lambda>f. None)"
  let ?file2 = "ex_file False [''ParseA'', ''ParseB'']"
  let ?e2 = "ex_env ?file2 [] (\<lambda>f. None)"
  have ok: "fst (splitGoFile ?e ''x.go'' 3) = None"
    by code_simp
  then have run: "splitGoFile ?e ''x.go'' 3 = (None, snd (splitGoFile ?e ''x.go'' 3))"
    by (metis prod.collapse)
  have parse: "parseFile ?e ''x.go'' = Inr ?file"
    by (simp add: ex_env_def)
  have fs: "length (extractFunctions ?file) = 7"
    by (simp add: extractFunctions_def ex_file_def)
  have ok2: "fst (splitGoFile ?e2 ''x.go'' 5) = None"
    by code_simp
  then have run2: "splitGoFile ?e2 ''x.go'' 5 = (None, snd (splitGoFile ?e2 ''x.go'' 5))"
    by (metis prod.collapse)
  have parse2: "parseFile ?e2 ''x.go'' = Inr ?file2"
    by (simp add: ex_env_def)
  have fs2: "length (extractFunctions ?file2) = 2"
    by (simp add: extractFunctions_def ex_file_def)
  have a: "map (\<lambda>w. length (w_functions w)) (snd (splitGoFile ?e ''x.go'' 3)) = [3, 3, 1]"
    using C4_contiguous_groups [OF run _ parse] fs by simp
  have b: "length (snd (splitGoFile ?e2 ''x.go'' 5)) = 2"
    using C4_contiguous_groups [OF run2 _ parse2] fs2 by simp
  from ok a ok2 b show ?thesis by blast
qed

text \<open>
  Claim C10. In a run that succeeds on \<open>F \<ge> 1\<close> functions and \<open>N \<ge> 1\<close>
  files asked for, the number of files written is \<open>ceil(F / ceil(F/N))\<close>. It can be
  less than both \<open>N\<close> and \<open>F\<close>: five functions and four files asked for give
  three files.
\<close>

theorem C10_number_of_files:
  assumes "splitGoFile e inputFile n = (None, created)"
    and "0 < n"
    and "parseFile e inputFile = Inr node"
  shows "length created
           = (length (extractFunctions node)
                + (length (extractFunctions node) + nat n - 1) div nat n - 1)
             div ((length (extractFunctions node) + nat n - 1) div nat n)
       \<and> (length (extractFunctions node) = 5 \<and> n = 4 \<longrightarrow>
            length created = 3 \<and> length created < min (nat n) (length (extractFunctions node)))"
proof -
  note g = run_groups(8) [OF assms]
  have "length created = 3" if "length (extractFunctions node) = 5" "n = 4"
    using g that by simp
  with g show ?thesis by auto
qed

theorem C10_number_of_files_witness:
  "fst (splitGoFile (ex_env (ex_file False
          [''ParseA'', ''ParseB'', ''ParseC'', ''ParseD'', ''ParseE'']) [] (\<lambda>f. None))
          ''x.go'' 4) = None
   \<and> length (snd (splitGoFile (ex_env (ex_file False
          [''ParseA'', ''ParseB'', ''ParseC'', ''ParseD'', ''ParseE'']) [] (\<lambda>f. None))
          ''x.go'' 4)) = 3"
proof -
  let ?file = "ex_file False [''ParseA'', ''ParseB'', ''ParseC'', ''ParseD'', ''ParseE'']"
  let ?e = "ex_env ?file [] (\<lambda>f. None)"
  have ok: "fst (splitGoFile ?e ''x.go'' 4) = None"
    by code_simp
  then have run: "splitGoFile ?e ''x.go'' 4 = (None, snd (splitGoFile ?e ''x.go'' 4))"
    by (metis prod.collapse)
  have parse: "parseFile ?e ''x.go'' = Inr ?file"
    by (simp add: ex_env_def)
  have fs: "length (extractFunctions ?file) = 5"
    by (simp add: extractFunctions_def ex_file_def)
  show ?thesis
    using C10_number_of_files [OF run _ parse] ok fs by simp
qed

section \<open>The type declarations\<close>

text \<open>
  Claim C5. In every run, whether it succeeds or not, the record of a file written after
  the files \<open>xs\<close> has the index \<open>length xs\<close>; the first one carries the whole list
  of type declarations of the source, empty or not, and every other one carries none.
\<close>

theorem C5_types_in_first_group:
  assumes "snd (splitGoFile e inputFile n) = xs @ w # ys"
    and "parseFile e inputFile = Inr node"
  shows "w_index w = int (length xs)
       \<and> w_types w = (if xs = [] then extractTypeDecls node else [])"
proof -
  have idx: "w_index w = int (length xs)"
    using assms by (rule log_index)
  have "w_types w = (if w_index w = 0 then extractTypeDecls node else [])"
    using assms by (rule log_entry_fields(1))
  with idx show ?thesis by simp
qed

theorem C5_types_in_first_group_witness:
  "snd (splitGoFile (ex_env (ex_file True [''ParseA'', ''ParseB'']) [] (\<lambda>f. None)) ''x.go'' 2)
     = [] @ hd (snd (splitGoFile (ex_env (ex_file True [''ParseA'', ''ParseB'']) []
                       (\<lambda>f. None)) ''x.go'' 2))
          # tl (snd (splitGoFile (ex_env (ex_file True [''ParseA'', ''ParseB'']) []
                       (\<lambda>f. None)) ''x.go'' 2))
   \<and> w_types (hd (snd (splitGoFile (ex_env (ex_file True [''ParseA'', ''ParseB'']) []
                       (\<lambda>f. None)) ''x.go'' 2))) = [ex_type]
   \<and> w_types (hd (tl (snd (splitGoFile (ex_env (ex_file True [''ParseA'', ''ParseB'']) []
                       (\<lambda>f. None)) ''x.go'' 2)))) = []"
proof -
  let ?file = "ex_file True [''ParseA'', ''ParseB'']"
  let ?e = "ex_env ?file [] (\<lambda>f. None)"
  let ?log = "snd (splitGoFile ?e ''x.go'' 2)"
  have len: "length ?log = 2"
    by code_simp
  then obtain a b where log: "?log = [a, b]"
    by (auto simp: length_Suc_conv numeral_2_eq_2)
  have parse: "parseFile ?e ''x.go'' = Inr ?file"
    by (simp add: ex_env_def)
  have ts: "extractTypeDecls ?file = [ex_type]"
    by (simp add: extractTypeDecls_def ex_file_def ex_imports_def ex_type_def)
  have d0: "?log = [] @ a # [b]" and d1: "?log = [a] @ b # []"
    using log by simp_all
  from C5_types_in_first_group [OF d0 parse] C5_types_in_first_group [OF d1 parse]
  show ?thesis by (simp add: log ts)
qed

section \<open>A write that fails\<close>

text \<open>
  Claim C9. Let the groups of a run be the ones that the same run writes when no creation
  and no printing fails, in their order. If the write of group \<open>w\<close> fails and the
  writes of the groups \<open>xs\<close> before it succeed, then \<open>w\<close> is group number
  \<open>length xs\<close>, the run returns the error of that write, and its log is exactly
  \<open>xs\<close>: no later group is processed, and the files of the earlier groups stay
  written, since the program has no operation that removes a file.
\<close>

theorem C9_write_failure_stops_run:
  assumes "snd (splitGoFile (quiet e) inputFile n) = xs @ w # ys"
    and "parseFile e inputFile = Inr node"
    and "\<forall>v \<in> set xs. writeEntry e (file_Name node) v = None"
    and "writeEntry e (file_Name node) w = Some err"
  shows "w_index w = int (length xs)
       \<and> splitGoFile e inputFile n = (Some (WriteError (w_outputFile w) err), xs)"
proof -
  have parse: "parseFile (quiet e) inputFile = Inr node"
    using assms(2) by simp
  have ne: "xs @ w # ys \<noteq> []" by simp
  from assms(1) ne parse obtain existing where fs: "extractFunctions node \<noteq> []"
    and ex: "getExistingFiles (quiet e) (pathDir (quiet e) inputFile) = Inr existing"
    and n0: "n \<noteq> 0"
    and plan: "snd (splitLoop (quiet e) (runLocals (quiet e) inputFile node existing n) 0 {} [])
               = xs @ w # ys"
    by (rule splitGoFile_log)
  let ?L = "runLocals e inputFile node existing n"
  have ex': "getExistingFiles e (pathDir e inputFile) = Inr existing"
    using ex by simp
  have plan': "snd (splitLoop (quiet e) ?L 0 {} []) = xs @ w # ys"
    using plan by simp
  have "splitGoFile e inputFile n = splitLoop e ?L 0 {} []"
    by (rule splitGoFile_loop [OF assms(2) fs ex' n0])
  also have "\<dots> = (Some (WriteError (w_outputFile w) err), xs)"
    using plan' assms(3,4) by (intro loop_first_failure) simp_all
  finally have run: "splitGoFile e inputFile n = (Some (WriteError (w_outputFile w) err), xs)" .
  from log_index [OF assms(1) parse] run show ?thesis by simp
qed

theorem C9_write_failure_stops_run_witness:
  "fst (splitGoFile (ex_env (ex_file True [''ParseA'', ''ParseB'', ''ParseC'']) []
          (\<lambda>f. if f = ''x_parse.go'' then Some ''permission denied'' else None)) ''x.go'' 3)
     = Some (WriteError ''x_parse.go'' ''permission denied'')
   \<and> map w_outputFile
         (snd (splitGoFile (ex_env (ex_file True [''ParseA'', ''ParseB'', ''ParseC'']) []
            (\<lambda>f. if f = ''x_parse.go'' then Some ''permission denied'' else None)) ''x.go'' 3))
     = [''x_types.go'']"
proof -
  let ?file = "ex_file True [''ParseA'', ''ParseB'', ''ParseC'']"
  let ?e = "ex_env ?file [] (\<lambda>f. if f = ''x_parse.go'' then Some ''permission denied'' else None)"
  let ?plan = "snd (splitGoFile (quiet ?e) ''x.go'' 3)"
  have names: "map w_outputFile ?plan = [''x_types.go'', ''x_parse.go'', ''x_core.go'']"
    by code_simp
  then obtain a b c where plan: "?plan = [a, b, c]"
    and a: "w_outputFile a = ''x_types.go''" and b: "w_outputFile b = ''x_parse.go''"
    by (auto simp: map_eq_Cons_conv)
  have dec: "?plan = [a] @ b # [c]" using plan by simp
  have parse: "parseFile ?e ''x.go'' = Inr ?file"
    by (simp add: ex_env_def)
  have wa: "\<forall>v \<in> set [a]. writeEntry ?e (file_Name ?file) v = None"
    by (simp add: writeEntry_def writeGoFile_def ex_env_def a)
  have wb: "writeEntry ?e (file_Name ?file) b = Some ''permission denied''"
    by (simp add: writeEntry_def writeGoFile_def ex_env_def b)
  from C9_write_failure_stops_run [OF dec parse wa wb]
  show ?thesis by (simp add: a b)
qed

section \<open>The suffixes\<close>

text \<open>
  Claim C6 says that the group with the type declarations always has the suffix
  \<open>types\<close>, whatever files exist. It does not: when the directory already holds
  \<open>x_types.go\<close>, the group that carries the type declaration of \<open>x.go\<close> gets
  the first alternative, \<open>core\<close>.
\<close>

theorem C6_types_suffix_counterexample:
  "map w_types (snd (splitGoFile (ex_env (ex_file True [''ParseA'']) [''x_types.go'']
          (\<lambda>f. None)) ''x.go'' 1)) = [[ex_type]]
   \<and> map w_suffix (snd (splitGoFile (ex_env (ex_file True [''ParseA'']) [''x_types.go'']
          (\<lambda>f. None)) ''x.go'' 1)) = [''core'']"
  by code_simp

text \<open>
  Claim C6, amended. For the group with the type declarations the base suffix is
  \<open>types\<close>, ahead of the keyword scan and whatever its functions are; no suffix has
  been used before this group, and the suffix chosen is \<open>types\<close> exactly when the
  file of that name is not in the snapshot of the directory.
\<close>

theorem C6_types_suffix:
  assumes "snd (splitGoFile e inputFile n) = w # ys"
    and "parseFile e inputFile = Inr node"
    and "getExistingFiles e (pathDir e inputFile) = Inr existing"
  shows "generateFilenameSuffix (unicodeLower e) (w_functions w) True = ''types''
       \<and> (w_suffix w = ''types'')
         = (fileName (TrimSuffix (pathBase e inputFile) ''.go'') ''types'' \<notin> existing)"
proof -
  have dec: "snd (splitGoFile e inputFile n) = [] @ w # ys"
    using assms(1) by simp
  from run_suffix [OF dec assms(2,3)]
  have "w_suffix w = generateUniqueFilenameSuffix (unicodeLower e) (w_functions w) True
                       (TrimSuffix (pathBase e inputFile) ''.go'') existing {}"
    by simp
  then show ?thesis
    by (simp add: unique_types_iff gfs_types isFree_def)
qed

theorem C6_types_suffix_witness:
  "getExistingFiles (ex_env (ex_file True [''ParseA'']) [''y_types.go''] (\<lambda>f. None)) ''.''
     = Inr {''y_types.go''}
   \<and> fileName ''x'' ''types'' \<notin> {''y_types.go''}
   \<and> map w_suffix (snd (splitGoFile (ex_env (ex_file True [''ParseA'']) [''y_types.go'']
          (\<lambda>f. None)) ''x.go'' 1)) = [''types'']"
proof -
  let ?file = "ex_file True [''ParseA'']"
  let ?e = "ex_env ?file [''y_types.go''] (\<lambda>f. None)"
  let ?log = "snd (splitGoFile ?e ''x.go'' 1)"
  have len: "length ?log = 1"
    by code_simp
  then obtain a where log: "?log = [a]"
    by (auto simp: length_Suc_conv)
  have parse: "parseFile ?e ''x.go'' = Inr ?file"
    by (simp add: ex_env_def)
  have ex: "getExistingFiles ?e (pathDir ?e ''x.go'') = Inr {''y_types.go''}"
    by code_simp
  have dir: "pathDir ?e ''x.go'' = ''.''"
    by (simp add: ex_env_def)
  have base: "TrimSuffix (pathBase ?e ''x.go'') ''.go'' = ''x''"
    by code_simp
  have free: "fileName ''x'' ''types'' \<notin> {''y_types.go''}"
    by (simp add: fileName_def)
  from C6_types_suffix [OF log parse ex] free
  have "w_suffix a = ''types''" by (simp add: base)
  with ex free show ?thesis by (simp add: log dir)
qed

text \<open>
  Claim C7 says that a group without type declarations, none of whose lower-cased names
  contains a keyword, takes its suffix from the list of alternatives. It does not: the
  second group of the run below holds the one function \<open>Zzz\<close>, no keyword occurs in
  \<open>zzz\<close>, the first free alternative is \<open>core\<close>, and the suffix is \<open>z\<close>.
\<close>

theorem C7_fallback_suffix_counterexample:
  "map w_suffix (snd (splitGoFile (ex_env (ex_file True [''ParseA'', ''Zzz'']) [] (\<lambda>f. None))
          ''x.go'' 2)) = [''types'', ''z'']
   \<and> map w_functions (snd (splitGoFile (ex_env (ex_file True [''ParseA'', ''Zzz'']) []
          (\<lambda>f. None)) ''x.go'' 2)) = [[ex_fn ''ParseA''], [ex_fn ''Zzz'']]
   \<and> keywordMatch (funcNamesOf (\<lambda>s. s) [ex_fn ''Zzz'']) = None
   \<and> find (isFree ''x'' {} {''types''}) alternatives = Some ''core''"
  by code_simp

text \<open>
  Claim C7, amended. For a group without type declarations in which no keyword occurs
  in a lower-cased name, the base suffix is the lower-cased first byte of the first
  function name (\<open>funcs\<close> when that name is empty). It is the suffix chosen when it
  is neither used in this run nor the name of a file of the snapshot; only otherwise is
  the suffix the first alternative that is neither used nor colliding, when there is one.
\<close>

theorem C7_fallback_suffix:
  assumes "snd (splitGoFile e inputFile n) = xs @ w # ys"
    and "xs \<noteq> []"
    and "parseFile e inputFile = Inr node"
    and "getExistingFiles e (pathDir e inputFile) = Inr existing"
    and "w_functions w = f # fs"
    and "fn_Name f = Some name"
    and "keywordMatch (funcNamesOf (unicodeLower e) (w_functions w)) = None"
  shows "generateFilenameSuffix (unicodeLower e) (w_functions w) False
           = letterSuffix (unicodeLower e) name
       \<and> (isFree (TrimSuffix (pathBase e inputFile) ''.go'') existing (set (map w_suffix xs))
             (letterSuffix (unicodeLower e) name) \<longrightarrow>
            w_suffix w = letterSuffix (unicodeLower e) name)
       \<and> (\<not> isFree (TrimSuffix (pathBase e inputFile) ''.go'') existing (set (map w_suffix xs))
               (letterSuffix (unicodeLower e) name) \<longrightarrow>
            (\<forall>a. find (isFree (TrimSuffix (pathBase e inputFile) ''.go'') existing
                        (set (map w_suffix xs))) alternatives = Some a \<longrightarrow>
                 w_suffix w = a))"
proof -
  let ?uni = "unicodeLower e"
  let ?base = "TrimSuffix (pathBase e inputFile) ''.go''"
  let ?used = "set (map w_suffix xs)"
  have bs: "generateFilenameSuffix ?uni (w_functions w) False = letterSuffix ?uni name"
    by (rule gfs_no_keyword [OF assms(5,6,7)])
  have sfx: "w_suffix w = generateUniqueFilenameSuffix ?uni (w_functions w) False
                            ?base existing ?used"
    using run_suffix [OF assms(1,3,4)] assms(2) by simp
  have a: "w_suffix w = letterSuffix ?uni name"
    if "isFree ?base existing ?used (letterSuffix ?uni name)"
    unfolding sfx using that unique_base [of ?base existing ?used ?uni "w_functions w" False]
    by (simp add: bs)
  have b: "w_suffix w = a"
    if "\<not> isFree ?base existing ?used (letterSuffix ?uni name)"
      and "find (isFree ?base existing ?used) alternatives = Some a" for a
    unfolding sfx
    using that unique_alternative [of ?base existing ?used ?uni "w_functions w" False a]
    by (simp add: bs)
  from bs a b show ?thesis by blast
qed

theorem C7_fallback_suffix_witness:
  "keywordMatch (funcNamesOf (\<lambda>s. s) [ex_fn ''Zzz'']) = None
   \<and> isFree ''x'' {} {''types''} (letterSuffix (\<lambda>s. s) ''Zzz'')
   \<and> letterSuffix (\<lambda>s. s) ''Zzz'' = ''z''
   \<and> map w_suffix (snd (splitGoFile (ex_env (ex_file True [''ParseA'', ''Zzz'']) [] (\<lambda>f. None))
          ''x.go'' 2)) = [''types'', ''z'']"
proof -
  let ?file = "ex_file True [''ParseA'', ''Zzz'']"
  let ?e = "ex_env ?file [] (\<lambda>f. None)"
  let ?log = "snd (splitGoFile ?e ''x.go'' 2)"
  have fns: "map w_functions ?log = [[ex_fn ''ParseA''], [ex_fn ''Zzz'']]"
    by code_simp
  then obtain a b where log: "?log = [a, b]"
    and fa: "w_functions a = [ex_fn ''ParseA'']" and fb: "w_functions b = [ex_fn ''Zzz'']"
    by (auto simp: map_eq_Cons_conv)
  have dec: "?log = [a] @ b # []" and dec0: "?log = a # [b]" using log by simp_all
  have ne: "[a] \<noteq> []" by simp
  have parse: "parseFile ?e ''x.go'' = Inr ?file"
    by (simp add: ex_env_def)
  have ex: "getExistingFiles ?e (pathDir ?e ''x.go'') = Inr {}"
    by (simp add: getExistingFiles_def ex_env_def)
  have base: "TrimSuffix (pathBase ?e ''x.go'') ''.go'' = ''x''"
    by code_simp
  have uni: "unicodeLower ?e = (\<lambda>s. s)"
    by (simp add: ex_env_def)
  have nm: "fn_Name (ex_fn ''Zzz'') = Some ''Zzz''"
    by (simp add: ex_fn_def)
  have kw: "keywordMatch (funcNamesOf (\<lambda>s. s) [ex_fn ''Zzz'']) = None"
    by code_simp
  then have kw': "keywordMatch (funcNamesOf (unicodeLower ?e) (w_functions b)) = None"
    by (simp add: uni fb)
  have sa: "w_suffix a = ''types''"
    using run_suffix [OF dec0 [THEN trans, of "[] @ a # [b]"] parse ex]
    by (simp add: unique_types_iff [THEN iffD2] isFree_def base)
  have letter: "letterSuffix (\<lambda>s. s) ''Zzz'' = ''z''"
    by code_simp
  have free: "isFree ''x'' {} {''types''} (letterSuffix (\<lambda>s. s) ''Zzz'')"
    by (simp add: letter isFree_def)
  from C7_fallback_suffix [OF dec ne parse ex fb nm kw'] free
  have "w_suffix b = ''z''"
    by (simp add: base uni sa letter)
  with kw free letter sa show ?thesis by (simp add: log)
qed

text \<open>
  Claim C3 says that the suffixes of a run are pairwise distinct and that none names a
  file of the snapshot. The last resort of \<open>generateUniqueFilenameSuffix\<close> breaks
  it: in a directory that holds \<open>x_types.go\<close>, a file for every alternative and
  \<open>x_types1.go\<close> to \<open>x_types999.go\<close>, the one group of \<open>x.go\<close> gets the suffix
  \<open>types999\<close>, whose file is in the snapshot.
\<close>

theorem C3_unique_suffixes_counterexample:
  "getExistingFiles (ex_env (ex_file True [''ParseA'']) ex_crowded (\<lambda>f. None)) ''.''
     = Inr (set ex_crowded)
   \<and> map w_suffix (snd (splitGoFile (ex_env (ex_file True [''ParseA'']) ex_crowded
          (\<lambda>f. None)) ''x.go'' 1)) = [''types999'']
   \<and> fileName ''x'' ''types999'' \<in> set ex_crowded"
proof -
  let ?file = "ex_file True [''ParseA'']"
  let ?e = "ex_env ?file ex_crowded (\<lambda>f. None)"
  let ?log = "snd (splitGoFile ?e ''x.go'' 1)"
  have "\<forall>name \<in> set ex_crowded. HasSuffix name ''.go''"
    unfolding ex_crowded_def set_map by (rule ballI) (auto simp only: HasSuffix_fileName)
  then have ex: "getExistingFiles ?e dir = Inr (set ex_crowded)" for dir
    by (rule getExistingFiles_ex_env)
  have parse: "parseFile ?e ''x.go'' = Inr ?file"
    by (simp add: ex_env_def)
  have fs: "extractFunctions ?file = [ex_fn ''ParseA'']"
    by (simp add: extractFunctions_def ex_file_def)
  have ok: "fst (splitGoFile ?e ''x.go'' 1) = None"
    by (rule run_succeeds [OF parse _ ex]) (simp_all add: fs ex_env_def)
  then have run: "splitGoFile ?e ''x.go'' 1 = (None, ?log)"
    by (metis prod.collapse)
  have "length ?log = 1"
    using run_groups(8) [OF run _ parse] by (simp add: fs)
  then obtain w where log: "?log = [w]"
    by (auto simp: length_Suc_conv)
  have dec: "?log = [] @ w # []" using log by simp
  have base: "TrimSuffix (pathBase ?e ''x.go'') ''.go'' = ''x''"
    by (simp add: ex_env_def TrimSuffix_def HasSuffix_def)
  have "w_suffix w = generateUniqueFilenameSuffix (unicodeLower ?e) (w_functions w) True
                       ''x'' (set ex_crowded) {}"
    using run_suffix [OF dec parse ex] by (simp add: base)
  also have "\<dots> = numbered ''types'' 999"
    using unique_exhausted [of "''x''" "set ex_crowded" "{}" "unicodeLower ?e" "w_functions w" True]
      crowded_exhausted by (simp add: gfs_types)
  also have "\<dots> = ''types999''"
    by code_simp
  finally have sfx: "w_suffix w = ''types999''" .
  have "numbered ''types'' 999 \<in> set (''types'' # alternatives @ map (numbered ''types'') [1..999])"
    by simp
  then have "fileName ''x'' (numbered ''types'' 999) \<in> set ex_crowded"
    unfolding ex_crowded_def set_map by (rule imageI)
  moreover have "numbered ''types'' 999 = ''types999''"
    by code_simp
  ultimately have "fileName ''x'' ''types999'' \<in> set ex_crowded"
    by simp
  with ex sfx show ?thesis by (simp add: log)
qed

text \<open>
  Claim C3, amended. In every run, the suffix of the group written after the groups
  \<open>xs\<close> differs from the suffixes of \<open>xs\<close> and names no file of the snapshot
  exactly when the last resort is not reached for that group, that is, unless its base
  suffix, every alternative and the base suffix followed by each of 1 to 999 are all used
  or colliding.
\<close>

theorem C3_unique_suffixes:
  assumes "snd (splitGoFile e inputFile n) = xs @ w # ys"
    and "parseFile e inputFile = Inr node"
    and "getExistingFiles e (pathDir e inputFile) = Inr existing"
  shows "(w_suffix w \<notin> set (map w_suffix xs)
          \<and> fileName (TrimSuffix (pathBase e inputFile) ''.go'') (w_suffix w) \<notin> existing)
         = (\<not> exhausted (TrimSuffix (pathBase e inputFile) ''.go'') existing
                (set (map w_suffix xs))
                (generateFilenameSuffix (unicodeLower e) (w_functions w) (xs = [])))"
proof -
  let ?base = "TrimSuffix (pathBase e inputFile) ''.go''"
  let ?used = "set (map w_suffix xs)"
  have sfx: "w_suffix w = generateUniqueFilenameSuffix (unicodeLower e) (w_functions w)
                            (xs = []) ?base existing ?used"
    by (rule run_suffix [OF assms])
  have "isFree ?base existing ?used (w_suffix w)
        = (\<not> exhausted ?base existing ?used
               (generateFilenameSuffix (unicodeLower e) (w_functions w) (xs = [])))"
    by (subst sfx) (rule unique_free_iff)
  then show ?thesis by (auto simp: isFree_def)
qed

theorem C3_unique_suffixes_witness:
  "map w_suffix (snd (splitGoFile (ex_env (ex_file True [''ParseA'', ''ParseB'', ''ParseC''])
          [''x_parse.go''] (\<lambda>f. None)) ''x.go'' 3)) = [''types'', ''core'', ''main'']
   \<and> \<not> exhausted ''x'' {''x_parse.go''} {''types'', ''core''}
         (generateFilenameSuffix (\<lambda>s. s) [ex_fn ''ParseC''] False)"
proof -
  let ?file = "ex_file True [''ParseA'', ''ParseB'', ''ParseC'']"
  let ?e = "ex_env ?file [''x_parse.go''] (\<lambda>f. None)"
  let ?log = "snd (splitGoFile ?e ''x.go'' 3)"
  have sfx: "map w_suffix ?log = [''types'', ''core'', ''main'']"
    by code_simp
  have fns: "map w_functions ?log = [[ex_fn ''ParseA''], [ex_fn ''ParseB''], [ex_fn ''ParseC'']]"
    by code_simp
  from sfx fns obtain a b c where log: "?log = [a, b, c]"
    and s: "w_suffix a = ''types''" "w_suffix b = ''core''" "w_suffix c = ''main''"
    and f: "w_functions c = [ex_fn ''ParseC'']"
    by (auto simp: map_eq_Cons_conv)
  have dec: "?log = [a, b] @ c # []" using log by simp
  have parse: "parseFile ?e ''x.go'' = Inr ?file"
    by (simp add: ex_env_def)
  have ex: "getExistingFiles ?e (pathDir ?e ''x.go'') = Inr {''x_parse.go''}"
    by code_simp
  have base: "TrimSuffix (pathBase ?e ''x.go'') ''.go'' = ''x''"
    by code_simp
  have uni: "unicodeLower ?e = (\<lambda>s. s)"
    by (simp add: ex_env_def)
  have fresh: "w_suffix c \<notin> set (map w_suffix [a, b])
               \<and> fileName ''x'' (w_suffix c) \<notin> {''x_parse.go''}"
    by (simp add: s fileName_def)
  from C3_unique_suffixes [OF dec parse ex] fresh
  have "\<not> exhausted ''x'' {''x_parse.go''} {''types'', ''core''}
         (generateFilenameSuffix (\<lambda>s. s) [ex_fn ''ParseC''] False)"
    by (simp add: base uni s f insert_commute)
  with sfx show ?thesis by simp
qed

section \<open>The imports written\<close>

text \<open>
  In \<open>main.go\<close> the imports written for a group are the imports of the source, in
  their order, whose name is among the identifiers collected from the functions of the
  group and, for the first group, from the type declarations. The name is the alias when
  there is one; for a path written between double quotes and without an alias it is the
  last segment of the path.
\<close>

lemma run_imports:
  assumes "snd (splitGoFile e inputFile n) = xs @ w # ys"
    and "parseFile e inputFile = Inr node"
  shows "w_imports w
         = filter (\<lambda>imp. importName imp
                      \<in> usedIdentifiers (w_functions w)
                          (if xs = [] then extractTypeDecls node else []))
             (extractImports node)"
  using log_entry_fields [OF assms] log_index [OF assms]
  by (simp add: analyzeRequiredImports_def)

lemma dropWhile_absent: "x \<notin> set p \<Longrightarrow> dropWhile (\<lambda>c. c = x) p = p"
  by (cases p) auto

lemma Trim_quoted:
  assumes "CHR 0x22 \<notin> set p"
  shows "Trim (quoted p) (CHR 0x22) = p"
proof (cases p)
  case Nil
  then show ?thesis by (simp add: Trim_def quoted_def)
next
  case (Cons c cs)
  with assms have "c \<noteq> CHR 0x22" by auto
  then have a: "dropWhile (\<lambda>c. c = CHR 0x22) (quoted p) = p @ [CHR 0x22]"
    by (simp add: quoted_def Cons)
  have b: "dropWhile (\<lambda>c. c = CHR 0x22) (rev (p @ [CHR 0x22])) = rev p"
    using assms by (simp add: dropWhile_absent)
  show ?thesis by (simp only: Trim_def a b rev_rev_ident)
qed

lemma Split_from_nonempty: "Split_from sep acc s \<noteq> []"
  by (induction s arbitrary: acc) simp_all

lemma importName_alias: "imp_Name imp = Some name \<Longrightarrow> importName imp = name"
  by (simp add: importName_def)

lemma importName_quoted:
  assumes "imp_Name imp = None" and "imp_Path_Value imp = quoted p" and "CHR 0x22 \<notin> set p"
  shows "importName imp = last (Split p (CHR ''/''))"
  using assms Split_from_nonempty [of "CHR ''/''" "[]" p]
  by (simp add: importName_def Trim_quoted Let_def Split_def last_conv_nth)

text \<open>
  Claim C2 says that an import is written for a group exactly when its bound name, the
  alias or else the last segment of the import path, is among the identifiers of the
  group. \<open>analyzeRequiredImports\<close> strips double quotes only, so for a path written
  as a raw string literal it looks for the name with the back quotes around it: for the
  file that imports \<open>`fmt`\<close> and calls \<open>fmt.Println\<close> the import is not written,
  although \<open>fmt\<close> is among the identifiers of the group, and the same file with the
  path between double quotes keeps it.
\<close>

theorem C2_raw_import_dropped:
  "extractImports (ex_import_file (rawquoted ''fmt''))
     = [\<lparr>imp_Name = None, imp_Path_Value = rawquoted ''fmt''\<rparr>]
   \<and> map w_functions (snd (splitGoFile (ex_env (ex_import_file (rawquoted ''fmt'')) []
          (\<lambda>f. None)) ''x.go'' 1)) = [[ex_fn ''ParseA'']]
   \<and> ''fmt'' \<in> usedIdentifiers [ex_fn ''ParseA''] []
   \<and> map w_imports (snd (splitGoFile (ex_env (ex_import_file (rawquoted ''fmt'')) []
          (\<lambda>f. None)) ''x.go'' 1)) = [[]]
   \<and> importName \<lparr>imp_Name = None, imp_Path_Value = rawquoted ''fmt''\<rparr> = rawquoted ''fmt''
   \<and> map w_imports (snd (splitGoFile (ex_env (ex_import_file (quoted ''fmt'')) []
          (\<lambda>f. None)) ''x.go'' 1)) = [[\<lparr>imp_Name = None, imp_Path_Value = quoted ''fmt''\<rparr>]]"
  by code_simp

text \<open>
  The earlier copy of the program has no filter at all: for the file that imports
  \<open>fmt\<close> and has two functions of which only the first mentions it, split in two,
  both files written import \<open>fmt\<close>, where \<open>main.go\<close> writes the import for the
  first one only.
\<close>

lemma part000_imports_unfiltered:
  "map w_functions (snd (splitGoFile_part000 (ex_env ex_mixed_file [] (\<lambda>f. None)) ''x.go'' 2))
     = [[ex_fn ''ParseA''], [ex_plain_fn ''ParseB'']]
   \<and> ''fmt'' \<notin> usedIdentifiers [ex_plain_fn ''ParseB''] []
   \<and> map w_imports (snd (splitGoFile_part000 (ex_env ex_mixed_file [] (\<lambda>f. None)) ''x.go'' 2))
     = [[\<lparr>imp_Name = None, imp_Path_Value = quoted ''fmt''\<rparr>],
        [\<lparr>imp_Name = None, imp_Path_Value = quoted ''fmt''\<rparr>]]
   \<and> map w_imports (snd (splitGoFile (ex_env ex_mixed_file [] (\<lambda>f. None)) ''x.go'' 2))
     = [[\<lparr>imp_Name = None, imp_Path_Value = quoted ''fmt''\<rparr>], []]"
  by code_simp

end
